theory Spec2Isabelle
  imports Complex_Main "HOL-Library.AList"
begin

section \<open>JavaScript values and JSON frames\<close>

text \<open>
  The client and the server exchange JSON texts over a WebSocket. A frame that is a JSON
  text is represented by its syntax tree (values, arrays, and objects as the list of
  their members in textual order, duplicate names allowed); every other text is
  \<open>NotJSON\<close>. The values of the program are JavaScript values: the JSON values and
  \<open>undefined\<close>, with an object as the list of its own properties in creation order.
  Values that JSON does not represent otherwise (functions, objects with \<open>toJSON\<close>) are
  left out, and so is the rule that enumerates integer-like property names first:
  properties are only looked up by name.

  A Number is \<open>NaN\<close>, an infinity, \<open>-0\<close>, or a finite value given by the rational it is
  (\<open>Finite 0\<close> is \<open>+0\<close>); the protocol never computes with numbers, so which rationals
  are doubles plays no part. In a syntax tree a number literal stands as the Number that
  \<open>JSON.parse\<close> reads it as: \<open>-0\<close> for the literal \<open>-0\<close>, an infinity for a literal
  beyond the range of the doubles, never \<open>NaN\<close>.
\<close>

datatype number = Finite rat | Negative_zero | NaN | Infinity | Negative_Infinity

datatype json =
    JNull
  | JBool bool
  | JNum number
  | JStr string
  | JArr "json list"
  | JObj "(string \<times> json) list"

datatype jsval =
    Undefined
  | Null
  | Bool bool
  | Num number
  | Str string
  | Arr "jsval list"
  | Obj "(string \<times> jsval) list"

datatype frame = JSONText json | NotJSON string

text \<open>
  \<open>JSON.stringify\<close>: \<open>undefined\<close> has no JSON text; an \<open>undefined\<close> array element is
  written as \<open>null\<close>; a property whose value is \<open>undefined\<close> is left out. A finite
  number is written as the shortest literal that reads back as the same number, and
  \<open>-0\<close> as \<open>0\<close>; \<open>NaN\<close> and the infinities are written as \<open>null\<close>.
\<close>

fun NumberToString :: "number \<Rightarrow> json" where
  "NumberToString (Finite q) = JNum (Finite q)"
| "NumberToString Negative_zero = JNum (Finite 0)"
| "NumberToString NaN = JNull"
| "NumberToString Infinity = JNull"
| "NumberToString Negative_Infinity = JNull"

fun SerializeJSONProperty :: "jsval \<Rightarrow> json option"
and SerializeJSONArray :: "jsval list \<Rightarrow> json list"
and SerializeJSONObject :: "(string \<times> jsval) list \<Rightarrow> (string \<times> json) list" where
  "SerializeJSONProperty Undefined = None"
| "SerializeJSONProperty Null = Some JNull"
| "SerializeJSONProperty (Bool b) = Some (JBool b)"
| "SerializeJSONProperty (Num n) = Some (NumberToString n)"
| "SerializeJSONProperty (Str s) = Some (JStr s)"
| "SerializeJSONProperty (Arr xs) = Some (JArr (SerializeJSONArray xs))"
| "SerializeJSONProperty (Obj ps) = Some (JObj (SerializeJSONObject ps))"
| "SerializeJSONArray [] = []"
| "SerializeJSONArray (x # xs) =
     (case SerializeJSONProperty x of None \<Rightarrow> JNull | Some j \<Rightarrow> j) # SerializeJSONArray xs"
| "SerializeJSONObject [] = []"
| "SerializeJSONObject (p # ps) =
     (case SerializeJSONProperty (snd p) of
        None \<Rightarrow> SerializeJSONObject ps
      | Some j \<Rightarrow> (fst p, j) # SerializeJSONObject ps)"

definition JSON_stringify :: "jsval \<Rightarrow> frame option" where
  "JSON_stringify v = map_option JSONText (SerializeJSONProperty v)"

text \<open>
  \<open>JSON.parse\<close>: a text that is not JSON raises a SyntaxError (\<open>None\<close>). The members of
  an object are defined one after the other, so a repeated name keeps its first position
  and its last value (\<open>AList.update\<close>).
\<close>

fun InternalizeJSON :: "json \<Rightarrow> jsval"
and InternalizeArray :: "json list \<Rightarrow> jsval list"
and InternalizeObject :: "(string \<times> jsval) list \<Rightarrow> (string \<times> json) list \<Rightarrow> (string \<times> jsval) list" where
  "InternalizeJSON JNull = Null"
| "InternalizeJSON (JBool b) = Bool b"
| "InternalizeJSON (JNum n) = Num n"
| "InternalizeJSON (JStr s) = Str s"
| "InternalizeJSON (JArr js) = Arr (InternalizeArray js)"
| "InternalizeJSON (JObj ms) = Obj (InternalizeObject [] ms)"
| "InternalizeArray [] = []"
| "InternalizeArray (j # js) = InternalizeJSON j # InternalizeArray js"
| "InternalizeObject acc [] = acc"
| "InternalizeObject acc (m # ms) =
     InternalizeObject (AList.update (fst m) (InternalizeJSON (snd m)) acc) ms"

definition JSON_parse :: "frame \<Rightarrow> jsval option" where
  "JSON_parse message = (case message of JSONText j \<Rightarrow> Some (InternalizeJSON j) | NotJSON _ \<Rightarrow> None)"

text \<open>
  Reading a property, as the destructuring patterns \<open>{ method, payload, id }\<close> and
  \<open>{ data, id }\<close> do. None of these four names is defined on a built-in prototype, so
  only an own property of an object yields a value other than \<open>undefined\<close>.
  Destructuring \<open>null\<close> raises a TypeError (\<open>RequireObjectCoercible\<close>).
\<close>

definition Get :: "jsval \<Rightarrow> string \<Rightarrow> jsval" where
  "Get v k = (case v of
                Obj ps \<Rightarrow> (case map_of ps k of Some x \<Rightarrow> x | None \<Rightarrow> Undefined)
              | _ \<Rightarrow> Undefined)"

definition RequireObjectCoercible :: "jsval \<Rightarrow> bool" where
  "RequireObjectCoercible v = (v \<noteq> Undefined \<and> v \<noteq> Null)"

definition truthy :: "jsval \<Rightarrow> bool" where
  "truthy v = (case v of
                 Undefined \<Rightarrow> False
               | Null \<Rightarrow> False
               | Bool b \<Rightarrow> b
               | Num n \<Rightarrow> n \<noteq> Finite 0 \<and> n \<noteq> Negative_zero \<and> n \<noteq> NaN
               | Str s \<Rightarrow> s \<noteq> []
               | Arr _ \<Rightarrow> True
               | Obj _ \<Rightarrow> True)"

definition typeof :: "jsval \<Rightarrow> string" where
  "typeof v = (case v of
                 Undefined \<Rightarrow> ''undefined''
               | Null \<Rightarrow> ''object''
               | Bool _ \<Rightarrow> ''boolean''
               | Num _ \<Rightarrow> ''number''
               | Str _ \<Rightarrow> ''string''
               | Arr _ \<Rightarrow> ''object''
               | Obj _ \<Rightarrow> ''object'')"

section \<open>WSServer\<close>

text \<open>
  A handler is called with the payload and a \<open>respond\<close> callback. What
  \<open>handleMessage\<close> observes of the call is the data the handler passes to \<open>respond\<close>
  before it returns, in order, and whether the call ends by throwing.
\<close>

record handler_run =
  replies :: "jsval list"
  throws :: bool

type_synonym handler = "jsval \<Rightarrow> handler_run"

text \<open>
  \<open>methodList\<close> is the object \<open>{}\<close> filled by \<open>on\<close>: its own properties are the
  registered handlers, and every other name is looked up on \<open>Object.prototype\<close>. There
  \<open>__proto__\<close> reads as the prototype object itself (truthy, not callable) and eleven
  names are functions.
\<close>

type_synonym methodList = "string \<Rightarrow> handler option"

definition Object_prototype_functions :: "string list" where
  "Object_prototype_functions =
     [''constructor'', ''__defineGetter__'', ''__defineSetter__'', ''hasOwnProperty'',
      ''__lookupGetter__'', ''__lookupSetter__'', ''isPrototypeOf'',
      ''propertyIsEnumerable'', ''toString'', ''valueOf'', ''toLocaleString'']"

datatype member =
    Registered handler
  | Inherited_function string
  | Inherited_object

definition lookup :: "methodList \<Rightarrow> string \<Rightarrow> member option" where
  "lookup methodList method =
     (case methodList method of
        Some callback \<Rightarrow> Some (Registered callback)
      | None \<Rightarrow>
          if method = ''__proto__'' then Some Inherited_object
          else if method \<in> set Object_prototype_functions then Some (Inherited_function method)
          else None)"

text \<open>
  \<open>on(method, callback)\<close> is the assignment \<open>methodList[method] = callback\<close>. For the
  name \<open>__proto__\<close> the assignment replaces the prototype instead of adding a property;
  that table is outside this model (\<open>None\<close>).
\<close>

definition on :: "methodList \<Rightarrow> string \<Rightarrow> handler \<Rightarrow> methodList option" where
  "on methodList method callback =
     (if method = ''__proto__'' then None else Some (methodList(method \<mapsto> callback)))"

definition error_envelope :: "string \<Rightarrow> jsval \<Rightarrow> jsval" where
  "error_envelope message ident =
     Obj [(''error'', Bool True), (''message'', Str message), (''id'', ident)]"

definition success_envelope :: "jsval \<Rightarrow> jsval \<Rightarrow> jsval" where
  "success_envelope ident data = Obj [(''id'', ident), (''data'', data)]"

text \<open>
  \<open>ws.send(JSON.stringify(v))\<close>, as the list of frames written. The envelopes are
  objects, for which \<open>JSON.stringify\<close> always yields a text.
\<close>

definition send_json :: "jsval \<Rightarrow> frame list" where
  "send_json v = (case JSON_stringify v of Some text \<Rightarrow> [text] | None \<Rightarrow> [])"

text \<open>
  The outcome of \<open>handleMessage\<close>: it returns after writing some frames; or a TypeError
  escapes it (destructuring \<open>null\<close>); or it calls a function inherited from
  \<open>Object.prototype\<close> in the place of a handler, inside the \<open>try\<close> block. What such a
  built-in does with the payload is not modelled further: the \<open>else\<close> branch that
  reports an unknown method is not taken. In the definition, the last branch of the
  case on \<open>method\<close> is never reached: a value whose \<open>typeof\<close> is \<open>string\<close> is a string.
\<close>

datatype outcome =
    Returned "frame list"
  | Threw "frame list"
  | Called_builtin string jsval

definition handleMessage :: "methodList \<Rightarrow> frame \<Rightarrow> outcome" where
  "handleMessage methodList message =
     (case JSON_parse message of
        None \<Rightarrow> Returned (send_json (error_envelope ''Malformed JSON'' Undefined))
      | Some parsed \<Rightarrow>
          if \<not> RequireObjectCoercible parsed then Threw []
          else
            let method = Get parsed ''method'';
                payload = Get parsed ''payload'';
                ident = Get parsed ''id''
            in if \<not> truthy method \<or> typeof method \<noteq> ''string''
               then Returned (send_json (error_envelope ''Missing or invalid method'' ident))
               else (case method of
                  Str name \<Rightarrow>
                    (case lookup methodList name of
                       Some (Registered callback) \<Rightarrow>
                         (let run = callback payload
                          in Returned
                               (concat (map (\<lambda>data. send_json (success_envelope ident data)) (replies run))
                                @ (if throws run
                                   then send_json (error_envelope ''Method handler error'' ident)
                                   else [])))
                     | Some Inherited_object \<Rightarrow>
                         Returned (send_json (error_envelope ''Method handler error'' ident))
                     | Some (Inherited_function f) \<Rightarrow> Called_builtin f payload
                     | None \<Rightarrow> Returned (send_json (error_envelope ''Method not found'' ident)))
                | _ \<Rightarrow> Returned (send_json (error_envelope ''Missing or invalid method'' ident))))"

text \<open>An error envelope is a JSON object whose member \<open>error\<close> is \<open>true\<close>.\<close>

definition is_error_envelope :: "frame \<Rightarrow> bool" where
  "is_error_envelope f =
     (case f of
        JSONText (JObj ms) \<Rightarrow> map_of ms ''error'' = Some (JBool True)
      | _ \<Rightarrow> False)"

definition error_frame :: "string \<Rightarrow> jsval \<Rightarrow> frame" where
  "error_frame message ident =
     JSONText (JObj ([(''error'', JBool True), (''message'', JStr message)]
                     @ (case SerializeJSONProperty ident of None \<Rightarrow> [] | Some j \<Rightarrow> [(''id'', j)])))"

text \<open>The success envelope \<open>{ id, data }\<close> as it is written to the wire.\<close>

definition success_frame :: "jsval \<Rightarrow> jsval \<Rightarrow> frame" where
  "success_frame ident data =
     JSONText (JObj ((case SerializeJSONProperty ident of None \<Rightarrow> [] | Some j \<Rightarrow> [(''id'', j)])
                     @ (case SerializeJSONProperty data of None \<Rightarrow> [] | Some j \<Rightarrow> [(''data'', j)])))"

section \<open>Promises\<close>

text \<open>
  A promise is pending, fulfilled with a value or rejected with a reason; it settles at
  most once, and a later \<open>resolve\<close> or \<open>reject\<close> does nothing. A reason is what was
  thrown or passed to \<open>reject\<close>: an \<open>Error\<close> with its message, a TypeError raised by
  the runtime, the error event of a socket, or any other value.
\<close>

datatype exn = Error string | TypeError | ErrorEvent | Thrown jsval

datatype 'a promise = Pending | Fulfilled 'a | Rejected exn

definition resolve :: "'a \<Rightarrow> 'a promise \<Rightarrow> 'a promise" where
  "resolve data p = (case p of Pending \<Rightarrow> Fulfilled data | _ \<Rightarrow> p)"

definition reject :: "exn \<Rightarrow> 'a promise \<Rightarrow> 'a promise" where
  "reject reason p = (case p of Pending \<Rightarrow> Rejected reason | _ \<Rightarrow> p)"

section \<open>WSClient\<close>

text \<open>
  A listener is a closure; \<open>removeListener\<close> compares listeners by reference, so every
  closure carries the identity it got when it was created. The listener of \<open>send\<close>
  holds the message id and resolves the promise of its call (the promise has the same
  identity). The listener of \<open>stream\<close> holds the message id and the callback. A
  listener added by the caller, and the callback of a stream, are observers here: their
  calls are recorded, and they may throw.
\<close>

datatype listener =
    Request_listener nat string
  | Stream_listener nat string "jsval \<Rightarrow> exn option"
  | User_listener nat "frame \<Rightarrow> exn option"

fun identity :: "listener \<Rightarrow> nat" where
  "identity (Request_listener n messageId) = n"
| "identity (Stream_listener n messageId callback) = n"
| "identity (User_listener n f) = n"

text \<open>
  What an asynchronous call settles with: \<open>send\<close> with the reply's data, \<open>stream\<close> with
  the function that removes its listener, \<open>open\<close> with nothing.
\<close>

datatype result = Value jsval | Stop nat | Opened

text \<open>
  A call that awaits \<open>open()\<close> while the connection is not open has added an \<open>open\<close>
  and an \<open>error\<close> listener to the socket of that moment, and goes on when one of them
  fires: \<open>connect\<close> with its \<open>finally\<close> block, \<open>send\<close> and \<open>stream\<close> with their
  bodies, a call of \<open>open\<close> itself by settling its promise.
\<close>

datatype waiter =
    Connect_waiter
  | Send_waiter nat string jsval string
  | Stream_waiter nat string jsval "jsval \<Rightarrow> exn option" string
  | Open_waiter nat

text \<open>
  The fields of the class (\<open>isConnecting\<close> and \<open>shouldReconnect\<close> are \<open>_isConnecting\<close>
  and \<open>_shouldReconnect\<close>; \<open>socket\<close> is the number of the current WebSocket, counting
  the sockets created), followed by the runtime around it: the identities allocated so
  far, the promises, the pending \<open>open()\<close> calls and the \<open>error\<close> listeners of \<open>send\<close>
  with the socket each is attached to, the pending reconnect timers, the frames passed
  to \<open>socket.send\<close>, the calls of listeners, of stream callbacks and of the \<open>onConnect\<close>
  callback, and the console.
\<close>

record WSClient =
  reconnect :: bool
  isOpen :: bool
  onMessageListeners :: "listener list"
  isConnecting :: bool
  shouldReconnect :: bool
  socket :: nat
  onConnectCallback :: bool
  allocated :: nat
  promises :: "nat \<Rightarrow> result promise"
  openWaiters :: "(nat \<times> waiter) list"
  errorHandlers :: "(nat \<times> nat) list"
  timers :: nat
  outbox :: "(nat \<times> frame) list"
  invocations :: "(nat \<times> frame) list"
  calls :: "(nat \<times> jsval) list"
  connects :: nat
  console :: "string list"

text \<open>
  \<open>addListener\<close> pushes the listener; \<open>removeListener\<close> keeps the listeners that are
  not the given closure (\<open>l !== listener\<close>), so it takes the identity. \<open>settle\<close> applies a
  resolving function to the promise \<open>n\<close>.
\<close>

definition addListener :: "listener \<Rightarrow> WSClient \<Rightarrow> WSClient" where
  "addListener listener c = c\<lparr>onMessageListeners := onMessageListeners c @ [listener]\<rparr>"

definition removeListener :: "nat \<Rightarrow> WSClient \<Rightarrow> WSClient" where
  "removeListener listener c =
     c\<lparr>onMessageListeners := filter (\<lambda>l. identity l \<noteq> listener) (onMessageListeners c)\<rparr>"

definition settle :: "nat \<Rightarrow> (result promise \<Rightarrow> result promise) \<Rightarrow> WSClient \<Rightarrow> WSClient" where
  "settle n f c = c\<lparr>promises := (promises c)(n := f (promises c n))\<rparr>"

text \<open>
  \<open>_send\<close> (here \<open>send'\<close>) writes the request envelope to the current socket and returns
  the message id. The id is \<open>Math.random().toString(36).slice(2)\<close>; the string drawn is
  the parameter \<open>random\<close>.
\<close>

definition request_envelope :: "string \<Rightarrow> string \<Rightarrow> jsval \<Rightarrow> jsval" where
  "request_envelope messageId method data =
     Obj [(''id'', Str messageId), (''method'', Str method), (''payload'', data)]"

definition send' :: "string \<Rightarrow> jsval \<Rightarrow> string \<Rightarrow> WSClient \<Rightarrow> string \<times> WSClient" where
  "send' method data random c =
     (let messageId = random
      in (messageId,
          c\<lparr>outbox := outbox c @ map (Pair (socket c))
                                  (send_json (request_envelope messageId method data))\<rparr>))"

text \<open>The body of \<open>send\<close> after \<open>await this.open()\<close>; \<open>n\<close> is the promise it returned.\<close>

definition send_body :: "nat \<Rightarrow> string \<Rightarrow> jsval \<Rightarrow> string \<Rightarrow> WSClient \<Rightarrow> WSClient" where
  "send_body n method data random c =
     (let (messageId, c) = send' method data random c;
          c = addListener (Request_listener n messageId) c
      in c\<lparr>errorHandlers := errorHandlers c @ [(socket c, n)]\<rparr>)"

text \<open>
  The body of \<open>stream\<close> after \<open>await this.open()\<close>: it returns the function
  \<open>() => this.removeListener(listener)\<close>.
\<close>

definition stream_body ::
  "nat \<Rightarrow> string \<Rightarrow> jsval \<Rightarrow> (jsval \<Rightarrow> exn option) \<Rightarrow> string \<Rightarrow> WSClient \<Rightarrow> WSClient" where
  "stream_body n method data callback random c =
     (let (messageId, c) = send' method data random c;
          c = addListener (Stream_listener n messageId callback) c
      in settle n (resolve (Stop n)) c)"

text \<open>The function that \<open>stream\<close> returns.\<close>

definition stop :: "nat \<Rightarrow> WSClient \<Rightarrow> WSClient" where
  "stop listener c = removeListener listener c"

text \<open>What follows an \<open>await this.open()\<close> that resolved, and one that was rejected.\<close>

fun resumed :: "waiter \<Rightarrow> WSClient \<Rightarrow> WSClient" where
  "resumed Connect_waiter c = c\<lparr>isConnecting := False\<rparr>"
| "resumed (Send_waiter n method data random) c = send_body n method data random c"
| "resumed (Stream_waiter n method data callback random) c = stream_body n method data callback random c"
| "resumed (Open_waiter n) c = settle n (resolve Opened) c"

fun failed :: "exn \<Rightarrow> waiter \<Rightarrow> WSClient \<Rightarrow> WSClient" where
  "failed err Connect_waiter c = c\<lparr>isConnecting := False\<rparr>"
| "failed err (Send_waiter n method data random) c = settle n (reject err) c"
| "failed err (Stream_waiter n method data callback random) c = settle n (reject err) c"
| "failed err (Open_waiter n) c = settle n (reject err) c"

text \<open>\<open>await this.open()\<close>, followed by the rest of the caller.\<close>

definition open' :: "waiter \<Rightarrow> WSClient \<Rightarrow> WSClient" where
  "open' w c =
     (if isOpen c then resumed w c
      else c\<lparr>openWaiters := openWaiters c @ [(socket c, w)]\<rparr>)"

text \<open>
  \<open>connect\<close> returns at once while an attempt is in progress. Otherwise it sets
  \<open>_shouldReconnect\<close> to \<open>reconnect\<close>, detaches the handlers of the old socket, creates
  the next socket with its handlers (\<open>onclose\<close>, \<open>onerror\<close>, \<open>onmessage\<close> below) and
  awaits \<open>open()\<close>; its \<open>finally\<close> block clears \<open>_isConnecting\<close>. The constructor sets the
  fields and calls \<open>connect\<close>.
\<close>

definition connect :: "WSClient \<Rightarrow> WSClient" where
  "connect c =
     (if isConnecting c then c
      else open' Connect_waiter
             (c\<lparr>isConnecting := True,
                shouldReconnect := reconnect c,
                socket := Suc (socket c),
                isOpen := False\<rparr>))"

definition new_WSClient :: "bool \<Rightarrow> WSClient" where
  "new_WSClient reconnect' =
     connect \<lparr>reconnect = reconnect', isOpen = False, onMessageListeners = [],
              isConnecting = False, shouldReconnect = True, socket = 0,
              onConnectCallback = False, allocated = 0, promises = (\<lambda>n. Pending),
              openWaiters = [], errorHandlers = [], timers = 0, outbox = [],
              invocations = [], calls = [], connects = 0, console = []\<rparr>"

text \<open>
  \<open>send\<close> and \<open>stream\<close> are asynchronous: each call returns a new promise, \<open>n\<close>, and
  awaits \<open>open()\<close> before its body runs.
\<close>

definition fresh :: "WSClient \<Rightarrow> nat \<times> WSClient" where
  "fresh c = (allocated c,
              c\<lparr>allocated := Suc (allocated c), promises := (promises c)(allocated c := Pending)\<rparr>)"

definition send :: "string \<Rightarrow> jsval \<Rightarrow> string \<Rightarrow> WSClient \<Rightarrow> nat \<times> WSClient" where
  "send method data random c =
     (let (n, c) = fresh c in (n, open' (Send_waiter n method data random) c))"

definition stream ::
  "string \<Rightarrow> jsval \<Rightarrow> (jsval \<Rightarrow> exn option) \<Rightarrow> string \<Rightarrow> WSClient \<Rightarrow> nat \<times> WSClient" where
  "stream method data callback random c =
     (let (n, c) = fresh c in (n, open' (Stream_waiter n method data callback random) c))"

text \<open>
  \<open>close\<close> clears \<open>_shouldReconnect\<close> and calls \<open>socket.close()\<close>; the \<open>close\<close> event of
  the socket comes later, as an event.
\<close>

definition close :: "WSClient \<Rightarrow> WSClient" where
  "close c = c\<lparr>shouldReconnect := False\<rparr>"

subsection \<open>Dispatch of an inbound frame\<close>

text \<open>
  A call of a listener: the state after it, and what it threw if it threw. The
  listeners of \<open>send\<close> and \<open>stream\<close> return on a frame that is not JSON; destructuring
  \<open>null\<close> raises a TypeError.
\<close>

fun call_listener :: "listener \<Rightarrow> frame \<Rightarrow> WSClient \<Rightarrow> WSClient \<times> exn option" where
  "call_listener (User_listener n f) event c =
     (c\<lparr>invocations := invocations c @ [(n, event)]\<rparr>, f event)"
| "call_listener (Request_listener n messageId) event c =
     (let c = c\<lparr>invocations := invocations c @ [(n, event)]\<rparr>
      in case JSON_parse event of
           None \<Rightarrow> (c, None)
         | Some parsed \<Rightarrow>
             if \<not> RequireObjectCoercible parsed then (c, Some TypeError)
             else
               let responseData = Get parsed ''data'';
                   responseId = Get parsed ''id''
               in if responseId = Str messageId
                  then (removeListener n (settle n (resolve (Value responseData)) c), None)
                  else (c, None))"
| "call_listener (Stream_listener n messageId callback) event c =
     (let c = c\<lparr>invocations := invocations c @ [(n, event)]\<rparr>
      in case JSON_parse event of
           None \<Rightarrow> (c, None)
         | Some parsed \<Rightarrow>
             if \<not> RequireObjectCoercible parsed then (c, Some TypeError)
             else
               let responseData = Get parsed ''data'';
                   responseId = Get parsed ''id''
               in if responseId = Str messageId
                  then (c\<lparr>calls := calls c @ [(n, responseData)]\<rparr>, callback responseData)
                  else (c, None))"

text \<open>
  \<open>Array.prototype.forEach\<close> stops at the first call that throws and lets the exception
  through; \<open>try { ... } catch (e) { ... }\<close> runs the handler on what the body threw.
\<close>

fun forEach ::
  "('a \<Rightarrow> WSClient \<Rightarrow> WSClient \<times> exn option) \<Rightarrow> 'a list \<Rightarrow> WSClient \<Rightarrow> WSClient \<times> exn option" where
  "forEach f [] c = (c, None)"
| "forEach f (x # xs) c =
     (case f x c of
        (c', None) \<Rightarrow> forEach f xs c'
      | (c', Some e) \<Rightarrow> (c', Some e))"

definition try_catch ::
  "(WSClient \<Rightarrow> WSClient \<times> exn option) \<Rightarrow> (exn \<Rightarrow> WSClient \<Rightarrow> WSClient \<times> exn option)
   \<Rightarrow> WSClient \<Rightarrow> WSClient \<times> exn option" where
  "try_catch body handler c =
     (case body c of
        (c', None) \<Rightarrow> (c', None)
      | (c', Some e) \<Rightarrow> handler e c')"

definition console_error :: "string \<Rightarrow> WSClient \<Rightarrow> WSClient" where
  "console_error label c = c\<lparr>console := console c @ [label]\<rparr>"

text \<open>
  \<open>socket.onmessage\<close>. The loop runs over the array that is the registry when the frame
  arrives: \<open>removeListener\<close> assigns a new array to the field and leaves that one as it
  is.
\<close>

definition onmessage :: "frame \<Rightarrow> WSClient \<Rightarrow> WSClient \<times> exn option" where
  "onmessage event c =
     forEach (\<lambda>listener.
                try_catch (call_listener listener event)
                  (\<lambda>e c. (console_error ''Listener error:'' c, None)))
       (onMessageListeners c) c"

subsection \<open>Events of the socket, timers, and calls of the public methods\<close>

definition schedule_reconnect :: "WSClient \<Rightarrow> WSClient" where
  "schedule_reconnect c = (if shouldReconnect c then c\<lparr>timers := Suc (timers c)\<rparr> else c)"

text \<open>
  The handlers \<open>onclose\<close>, \<open>onerror\<close> and \<open>onmessage\<close> are attached to the current socket
  and detached from it when \<open>connect\<close> replaces it; the listeners added with
  \<open>addEventListener\<close> stay on the socket they were added to.
\<close>

definition onclose :: "nat \<Rightarrow> WSClient \<Rightarrow> WSClient" where
  "onclose k c = (if k = socket c then schedule_reconnect (c\<lparr>isOpen := False\<rparr>) else c)"

definition onopen :: "nat \<Rightarrow> WSClient \<Rightarrow> WSClient" where
  "onopen k c =
     (let waiting = filter (\<lambda>w. fst w = k) (openWaiters c);
          c = c\<lparr>openWaiters := filter (\<lambda>w. fst w \<noteq> k) (openWaiters c)\<rparr>;
          c = (if waiting = [] then c
               else c\<lparr>isOpen := True,
                      connects := (if onConnectCallback c then connects c + length waiting
                                   else connects c)\<rparr>)
      in fold resumed (map snd waiting) c)"

definition errorHandler :: "nat \<Rightarrow> WSClient \<Rightarrow> WSClient" where
  "errorHandler n c = removeListener n (settle n (reject ErrorEvent) c)"

definition onerror :: "nat \<Rightarrow> WSClient \<Rightarrow> WSClient" where
  "onerror k c =
     (let c = (if k = socket c
               then schedule_reconnect (console_error ''WebSocket error:'' c\<lparr>isOpen := False\<rparr>)
               else c);
          c = fold errorHandler (map snd (filter (\<lambda>h. fst h = k) (errorHandlers c))) c;
          waiting = filter (\<lambda>w. fst w = k) (openWaiters c);
          c = c\<lparr>openWaiters := filter (\<lambda>w. fst w \<noteq> k) (openWaiters c)\<rparr>
      in fold (failed ErrorEvent) (map snd waiting) c)"

definition ontimer :: "WSClient \<Rightarrow> WSClient" where
  "ontimer c = (if timers c = 0 then c else connect (c\<lparr>timers := timers c - 1\<rparr>))"

text \<open>
  The calls of the public methods: \<open>open\<close> returns a promise; \<open>addListener\<close> is called
  with a new closure; \<open>onConnect\<close> stores the callback.
\<close>

definition call_open :: "WSClient \<Rightarrow> nat \<times> WSClient" where
  "call_open c = (let (n, c) = fresh c in (n, open' (Open_waiter n) c))"

definition call_addListener :: "(frame \<Rightarrow> exn option) \<Rightarrow> WSClient \<Rightarrow> nat \<times> WSClient" where
  "call_addListener f c =
     (let n = allocated c
      in (n, addListener (User_listener n f) (c\<lparr>allocated := Suc n\<rparr>)))"

definition onConnect :: "WSClient \<Rightarrow> WSClient" where
  "onConnect c = c\<lparr>onConnectCallback := True\<rparr>"

text \<open>
  What can happen to a client, one at a time: the events of its sockets, a reconnect
  timer firing, and the calls of its methods (\<open>connect\<close> is called by the constructor
  and by the timers only).
\<close>

datatype event =
    Socket_open nat
  | Socket_close nat
  | Socket_error nat
  | Socket_message nat frame
  | Timer_fires
  | Call_close
  | Call_send string jsval string
  | Call_stream string jsval "jsval \<Rightarrow> exn option" string
  | Call_stop nat
  | Call_open
  | Call_addListener "frame \<Rightarrow> exn option"
  | Call_removeListener nat
  | Call_onConnect

fun step :: "event \<Rightarrow> WSClient \<Rightarrow> WSClient" where
  "step (Socket_open k) c = onopen k c"
| "step (Socket_close k) c = onclose k c"
| "step (Socket_error k) c = onerror k c"
| "step (Socket_message k message) c = (if k = socket c then fst (onmessage message c) else c)"
| "step Timer_fires c = ontimer c"
| "step Call_close c = close c"
| "step (Call_send method data random) c = snd (send method data random c)"
| "step (Call_stream method data callback random) c = snd (stream method data callback random c)"
| "step (Call_stop n) c = stop n c"
| "step Call_open c = snd (call_open c)"
| "step (Call_addListener f) c = snd (call_addListener f c)"
| "step (Call_removeListener n) c = removeListener n c"
| "step Call_onConnect c = onConnect c"

definition run :: "event list \<Rightarrow> WSClient \<Rightarrow> WSClient" where
  "run events c = fold step events c"

subsection \<open>What the properties of the client speak about\<close>

text \<open>
  The state after the guarded call of one listener in the loop of \<open>onmessage\<close>.
\<close>

definition deliver :: "frame \<Rightarrow> listener \<Rightarrow> WSClient \<Rightarrow> WSClient" where
  "deliver event listener c =
     fst (try_catch (call_listener listener event)
            (\<lambda>e c. (console_error ''Listener error:'' c, None)) c)"

text \<open>
  The view of one identity \<open>n\<close>: the listeners of the registry that are the closure
  \<open>n\<close>, the data its stream callback was called with, and the frames it was invoked
  with.
\<close>

definition registered :: "nat \<Rightarrow> WSClient \<Rightarrow> listener list" where
  "registered n c = filter (\<lambda>l. identity l = n) (onMessageListeners c)"

definition calls_of :: "nat \<Rightarrow> WSClient \<Rightarrow> jsval list" where
  "calls_of n c = map snd (filter (\<lambda>x. fst x = n) (calls c))"

definition invocations_of :: "nat \<Rightarrow> WSClient \<Rightarrow> frame list" where
  "invocations_of n c = map snd (filter (\<lambda>x. fst x = n) (invocations c))"

text \<open>
  A reply whose id equals the message id: the condition \<open>responseId === messageId\<close> of
  the listeners of \<open>send\<close> and \<open>stream\<close>, on a frame that parses and can be
  destructured; and the \<open>data\<close> such a frame carries.
\<close>

definition matches :: "string \<Rightarrow> frame \<Rightarrow> bool" where
  "matches messageId event =
     (case JSON_parse event of
        None \<Rightarrow> False
      | Some parsed \<Rightarrow> RequireObjectCoercible parsed \<and> Get parsed ''id'' = Str messageId)"

definition reply_data :: "frame \<Rightarrow> jsval" where
  "reply_data event = (case JSON_parse event of None \<Rightarrow> Undefined | Some parsed \<Rightarrow> Get parsed ''data'')"

text \<open>Recording a call of a stream callback, and an invocation of a listener.\<close>

definition called :: "nat \<Rightarrow> jsval \<Rightarrow> WSClient \<Rightarrow> WSClient" where
  "called n d c = c\<lparr>calls := calls c @ [(n, d)]\<rparr>"

definition logged :: "nat \<Rightarrow> frame \<Rightarrow> WSClient \<Rightarrow> WSClient" where
  "logged n event c = c\<lparr>invocations := invocations c @ [(n, event)]\<rparr>"

text \<open>The frames whose destructuring throws: \<open>null\<close>.\<close>

definition throws_TypeError :: "frame \<Rightarrow> bool" where
  "throws_TypeError event =
     (case JSON_parse event of None \<Rightarrow> False | Some parsed \<Rightarrow> \<not> RequireObjectCoercible parsed)"

text \<open>Frames arriving one after the other on the current socket.\<close>

definition receive :: "frame list \<Rightarrow> WSClient \<Rightarrow> WSClient" where
  "receive events c = fold (\<lambda>event c. fst (onmessage event c)) events c"

text \<open>
  Identities are allocated in order, so every closure and promise of the state is below
  \<open>allocated\<close>.
\<close>

fun waiter_identity :: "waiter \<Rightarrow> nat option" where
  "waiter_identity Connect_waiter = None"
| "waiter_identity (Send_waiter n method data random) = Some n"
| "waiter_identity (Stream_waiter n method data callback random) = Some n"
| "waiter_identity (Open_waiter n) = Some n"

definition well_formed :: "WSClient \<Rightarrow> bool" where
  "well_formed c = ((\<forall>l \<in> set (onMessageListeners c). identity l < allocated c)
           \<and> (\<forall>x \<in> set (calls c). fst x < allocated c)
           \<and> (\<forall>x \<in> set (invocations c). fst x < allocated c)
           \<and> (\<forall>w \<in> set (openWaiters c). \<forall>n. waiter_identity (snd w) = Some n \<longrightarrow> n < allocated c))"

text \<open>The request envelope \<open>{ id, method, payload }\<close> as it is written to the wire.\<close>

definition request_frame :: "string \<Rightarrow> string \<Rightarrow> jsval \<Rightarrow> frame" where
  "request_frame messageId method data =
     JSONText (JObj ([(''id'', JStr messageId), (''method'', JStr method)]
                     @ (case SerializeJSONProperty data of None \<Rightarrow> [] | Some j \<Rightarrow> [(''payload'', j)])))"

text \<open>
  A client whose first socket has opened, and a frame \<open>{id, data}\<close> with a string as
  data, for the examples.
\<close>

definition connected_client :: WSClient where
  "connected_client = run [Socket_open 1] (new_WSClient False)"


subsection \<open>A request and its reply\<close>

text \<open>
  The handler of the repository's tests: \<open>server.on('echo', (payload, respond) =>
  respond(payload))\<close>.
\<close>

definition echo :: handler where
  "echo payload = \<lparr>replies = [payload], throws = False\<rparr>"

text \<open>
  The values that JSON represents: no \<open>undefined\<close> inside, every number finite and
  not \<open>-0\<close>, and each property name once in an object (as in every JavaScript
  object).
\<close>

fun json_value :: "jsval \<Rightarrow> bool"
and json_values :: "jsval list \<Rightarrow> bool"
and json_properties :: "(string \<times> jsval) list \<Rightarrow> bool" where
  "json_value Undefined = False"
| "json_value Null = True"
| "json_value (Bool b) = True"
| "json_value (Num n) = (case n of Finite q \<Rightarrow> True | _ \<Rightarrow> False)"
| "json_value (Str s) = True"
| "json_value (Arr xs) = json_values xs"
| "json_value (Obj ps) = (distinct (map fst ps) \<and> json_properties ps)"
| "json_values [] = True"
| "json_values (x # xs) = (json_value x \<and> json_values xs)"
| "json_properties [] = True"
| "json_properties (p # ps) = (json_value (snd p) \<and> json_properties ps)"

text \<open>
  What is left of a property value after \<open>JSON.stringify\<close> on one side and
  \<open>JSON.parse\<close> on the other.
\<close>

definition wire_copy :: "jsval \<Rightarrow> jsval" where
  "wire_copy v = (case SerializeJSONProperty v of None \<Rightarrow> Undefined | Some j \<Rightarrow> InternalizeJSON j)"

subsection \<open>The connection\<close>

text \<open>
  What decides whether a socket is created later: the flag \<open>_shouldReconnect\<close>, the
  pending reconnect timers and the current socket.
\<close>

definition connection :: "WSClient \<Rightarrow> bool \<times> nat \<times> nat" where
  "connection c = (shouldReconnect c, timers c, socket c)"

section \<open>Pledge\<close>

subsection \<open>Promises, jobs and timers of the runtime\<close>

text \<open>
  \<open>Pledge\<close> is written with the promises of the platform: \<open>new Promise\<close>, asynchronous
  functions, \<open>Promise.all\<close>, \<open>Promise.race\<close> and \<open>setTimeout\<close>. What a caller observes
  depends on the order in which the platform runs its promise jobs, so the promises are
  modelled as ECMAScript specifies them: a heap of promises, each with its state and the
  reactions waiting for it, and a queue of jobs that run one after the other, first in,
  first out, once the running code has returned.

  A reaction is the pair of functions passed to \<open>then\<close>. Two kinds occur: the resolving
  functions of another promise \<open>q\<close> (they settle \<open>q\<close> as the promise they were attached
  to), and, for \<open>Promise.all\<close>, the function that stores the \<open>i\<close>-th value of the result
  \<open>q\<close>, paired with the reject function of \<open>q\<close>. The promise that \<open>then\<close> itself returns is
  used nowhere and is left out. The values that promises are resolved with are values
  as above, none of them a promise or another thenable.
\<close>

datatype reaction =
    Resolve_functions nat
  | Resolve_element nat nat

datatype job =
    PromiseReactionJob reaction "jsval promise"
  | NewPromiseResolveThenableJob nat nat

text \<open>
  A promise on the heap: its state and its pending reactions; for a promise returned by
  \<open>Promise.all\<close> also the record of the call: the values stored so far, the count of
  the elements that are not stored yet, and the indices of the element functions that
  have been called.
\<close>

record cell =
  state :: "jsval promise"
  reactions :: "reaction list"
  element_values :: "jsval list"
  remainingElementsCount :: nat
  alreadyCalled :: "nat list"

text \<open>The callback of the timer that \<open>timeout\<close> sets: it rejects a promise with a reason.\<close>

datatype callback = Reject_with nat exn

text \<open>
  The runtime: the promises created so far (\<open>cells\<close> at the addresses below \<open>created\<close>),
  the job queue, the clock in milliseconds, and the timers that are set, each with the
  time at which it expires.
\<close>

record runtime =
  cells :: "nat \<Rightarrow> cell"
  created :: nat
  jobs :: "job list"
  now :: nat
  timeouts :: "(nat \<times> callback) list"

definition pending_cell :: cell where
  "pending_cell = \<lparr>state = Pending, reactions = [], element_values = [],
                    remainingElementsCount = 0, alreadyCalled = []\<rparr>"


definition NewPromise :: "runtime \<Rightarrow> nat \<times> runtime" where
  "NewPromise rt =
     (created rt, rt\<lparr>cells := (cells rt)(created rt := pending_cell), created := Suc (created rt)\<rparr>)"

text \<open>
  \<open>FulfillPromise\<close> and \<open>RejectPromise\<close>: a pending promise takes the outcome, and a job
  is queued for each of its reactions, in the order in which they were added. On a
  promise that is settled, the resolving functions do nothing.
\<close>

definition settle_promise :: "nat \<Rightarrow> jsval promise \<Rightarrow> runtime \<Rightarrow> runtime" where
  "settle_promise p outcome rt =
     (if p < created rt \<and> state (cells rt p) = Pending
      then rt\<lparr>cells := (cells rt)(p := (cells rt p)\<lparr>state := outcome, reactions := []\<rparr>),
              jobs := jobs rt @ map (\<lambda>r. PromiseReactionJob r outcome) (reactions (cells rt p))\<rparr>
      else rt)"

text \<open>
  \<open>PerformPromiseThen\<close>: the reaction is added to a pending promise; for a settled
  promise its job is queued at once.
\<close>

definition PerformPromiseThen :: "nat \<Rightarrow> reaction \<Rightarrow> runtime \<Rightarrow> runtime" where
  "PerformPromiseThen p r rt =
     (if p < created rt
      then (case state (cells rt p) of
              Pending \<Rightarrow> rt\<lparr>cells := (cells rt)(p := (cells rt p)\<lparr>reactions := reactions (cells rt p) @ [r]\<rparr>)\<rparr>
            | Fulfilled v \<Rightarrow> rt\<lparr>jobs := jobs rt @ [PromiseReactionJob r (Fulfilled v)]\<rparr>
            | Rejected e \<Rightarrow> rt\<lparr>jobs := jobs rt @ [PromiseReactionJob r (Rejected e)]\<rparr>)
      else rt)"








text \<open>
  \<open>setTimeout(callback, delay)\<close>, as Node has it: a delay that is larger than
  2147483647, less than 1 or \<open>NaN\<close> is set to 1, and a delay that is not an integer is
  truncated. The timer expires that many milliseconds after the call.
\<close>

fun milliseconds :: "number \<Rightarrow> nat" where
  "milliseconds (Finite q) = (if 1 \<le> q \<and> q \<le> 2147483647 then nat \<lfloor>q\<rfloor> else 1)"
| "milliseconds Negative_zero = 1"
| "milliseconds NaN = 1"
| "milliseconds Infinity = 1"
| "milliseconds Negative_Infinity = 1"





text \<open>
  \<open>Promise.resolve(x)\<close>, as \<open>Promise.all\<close> and \<open>Promise.race\<close> call it on each element:
  a promise is returned as it is; for any other value a new promise is created,
  fulfilled with the value.
\<close>

datatype element = A_promise nat | A_value jsval

fun PromiseResolve :: "element \<Rightarrow> runtime \<Rightarrow> nat \<times> runtime" where
  "PromiseResolve (A_promise p) rt = (p, rt)"
| "PromiseResolve (A_value v) rt =
     (let (p, rt) = NewPromise rt in (p, settle_promise p (Fulfilled v) rt))"

text \<open>
  \<open>Promise.all\<close>: a new promise \<open>q\<close>, with the count at 1; for each element in turn,
  \<open>undefined\<close> is appended to the values, the count goes up, and the element function is
  attached to the element's promise, with the reject function of \<open>q\<close>; after the last
  element the count goes down, and at zero \<open>q\<close> is resolved with the values.
\<close>

fun PerformPromiseAll :: "nat \<Rightarrow> nat \<Rightarrow> element list \<Rightarrow> runtime \<Rightarrow> runtime" where
  "PerformPromiseAll q i [] rt = rt"
| "PerformPromiseAll q i (x # xs) rt =
     (let c = cells rt q;
          rt = rt\<lparr>cells := (cells rt)(q := c\<lparr>element_values := element_values c @ [Undefined]\<rparr>)\<rparr>;
          (p, rt) = PromiseResolve x rt;
          c = cells rt q;
          rt = rt\<lparr>cells := (cells rt)(q := c\<lparr>remainingElementsCount := Suc (remainingElementsCount c)\<rparr>)\<rparr>
      in PerformPromiseAll q (Suc i) xs (PerformPromiseThen p (Resolve_element q i) rt))"

definition Promise_all :: "element list \<Rightarrow> runtime \<Rightarrow> nat \<times> runtime" where
  "Promise_all xs rt =
     (let (q, rt) = NewPromise rt;
          rt = rt\<lparr>cells := (cells rt)(q := (cells rt q)\<lparr>remainingElementsCount := 1\<rparr>)\<rparr>;
          rt = PerformPromiseAll q 0 xs rt;
          c = (cells rt q)\<lparr>remainingElementsCount := remainingElementsCount (cells rt q) - 1\<rparr>;
          rt = rt\<lparr>cells := (cells rt)(q := c)\<rparr>
      in (q, if remainingElementsCount c = 0
             then settle_promise q (Fulfilled (Arr (element_values c))) rt
             else rt))"



text \<open>
  A call of an asynchronous function whose body returns a promise without awaiting: the
  promise of the call is created, the body runs, and the promise of the call is resolved
  with the promise returned, which queues the job that will call \<open>then\<close> on it.
\<close>

definition async :: "(runtime \<Rightarrow> nat \<times> runtime) \<Rightarrow> runtime \<Rightarrow> nat \<times> runtime" where
  "async body rt =
     (let (q, rt) = NewPromise rt;
          (p, rt) = body rt
      in (q, rt\<lparr>jobs := jobs rt @ [NewPromiseResolveThenableJob q p]\<rparr>))"

subsection \<open>The class\<close>

text \<open>
  A Pledge holds the promise that its constructor creates, with the resolving functions
  of that promise: \<open>resolve\<close> and \<open>reject\<close> call them.
\<close>

record Pledge =
  promise :: nat

definition new_Pledge :: "runtime \<Rightarrow> Pledge \<times> runtime" where
  "new_Pledge rt = (let (p, rt) = NewPromise rt in (\<lparr>promise = p\<rparr>, rt))"



text \<open>\<open>async get() { return this.promise; }\<close>\<close>

definition get :: "Pledge \<Rightarrow> runtime \<Rightarrow> nat \<times> runtime" where
  "get this rt = async (\<lambda>rt. (promise this, rt)) rt"


text \<open>
  \<open>Pledge.all(pledges)\<close> maps every item that is a Pledge to the promise of a call of
  \<open>get\<close>, leaves every other item as it is, and passes the array to \<open>Promise.all\<close>.
\<close>

datatype item = A_Pledge Pledge | A_value' jsval

fun map_items :: "item list \<Rightarrow> runtime \<Rightarrow> element list \<times> runtime" where
  "map_items [] rt = ([], rt)"
| "map_items (A_Pledge this # items) rt =
     (let (q, rt) = get this rt;
          (xs, rt) = map_items items rt
      in (A_promise q # xs, rt))"
| "map_items (A_value' v # items) rt =
     (let (xs, rt) = map_items items rt in (A_value v # xs, rt))"

definition Pledge_all :: "item list \<Rightarrow> runtime \<Rightarrow> nat \<times> runtime" where
  "Pledge_all pledges rt = (let (xs, rt) = map_items pledges rt in Promise_all xs rt)"

subsection \<open>What happens to Pledges\<close>

text \<open>
  The Pledges of a program are created one after the other in a new runtime. Then, in
  any order: \<open>resolve\<close> or \<open>reject\<close> is called on one of them (named by its position in
  the order of creation; a position that names no Pledge is no call), one job of the
  queue runs (the call that follows is then made by a job of the caller's own, between
  two jobs of the platform), the running task ends and the queue is emptied, or
  milliseconds pass.
\<close>

fun new_Pledges :: "nat \<Rightarrow> runtime \<Rightarrow> Pledge list \<times> runtime" where
  "new_Pledges 0 rt = ([], rt)"
| "new_Pledges (Suc n) rt =
     (let (this, rt) = new_Pledge rt;
          (pledges, rt) = new_Pledges n rt
      in (this # pledges, rt))"






subsection \<open>The race of a call of timeout\<close>

text \<open>
  A call of \<open>timeout\<close> involves four promises: the promise \<open>p\<close> of the Pledge, the
  promise \<open>t\<close> that the timer rejects, the promise \<open>r\<close> of \<open>Promise.race\<close> and the
  promise \<open>out\<close> of the call, which follows \<open>r\<close>. The race is decided by the first job
  that calls the resolving functions of \<open>r\<close>: once \<open>r\<close> is settled its state is the
  outcome, and before that the outcome carried by the first such job of the queue.
\<close>

fun token_of :: "nat \<Rightarrow> job \<Rightarrow> jsval promise option" where
  "token_of r (PromiseReactionJob (Resolve_functions q) w) = (if q = r then Some w else None)"
| "token_of r (PromiseReactionJob (Resolve_element q i) w) = None"
| "token_of r (NewPromiseResolveThenableJob q p) = None"

definition winner :: "nat \<Rightarrow> runtime \<Rightarrow> jsval promise" where
  "winner r rt =
     (case state (cells rt r) of
        Pending \<Rightarrow> (case List.map_filter (token_of r) (jobs rt) of [] \<Rightarrow> Pending | w # ws \<Rightarrow> w)
      | Fulfilled v \<Rightarrow> Fulfilled v
      | Rejected e \<Rightarrow> Rejected e)"









section \<open>Properties of the server\<close>

lemma send_json_error_envelope:
  "send_json (error_envelope message ident) = [error_frame message ident]"
  by (simp add: send_json_def error_envelope_def error_frame_def JSON_stringify_def
      split: option.split)

lemma send_json_success_envelope:
  "send_json (success_envelope ident data) = [success_frame ident data]"
  by (simp add: send_json_def success_envelope_def success_frame_def JSON_stringify_def
      split: option.split)

lemma is_error_envelope_error_frame: "is_error_envelope (error_frame message ident)"
  by (simp add: is_error_envelope_def error_frame_def)

lemma not_error_envelope_success_frame: "\<not> is_error_envelope (success_frame ident data)"
  by (simp add: is_error_envelope_def success_frame_def split: option.split)

lemma InternalizeJSON_defined: "InternalizeJSON j \<noteq> Undefined"
  by (cases j) simp_all

lemma JSON_parse_coercible:
  "JSON_parse message = Some parsed \<Longrightarrow> RequireObjectCoercible parsed = (parsed \<noteq> Null)"
  by (auto simp: JSON_parse_def RequireObjectCoercible_def InternalizeJSON_defined split: frame.splits)

lemma filter_success_frames:
  "filter is_error_envelope (map (success_frame ident) ds) = []"
  by (induction ds) (simp_all add: not_error_envelope_success_frame)

lemma concat_success_frames:
  "concat (map (\<lambda>data. send_json (success_envelope ident data)) ds) = map (success_frame ident) ds"
  by (induction ds) (simp_all add: send_json_success_envelope)

lemma handleMessage_malformed:
  "JSON_parse message = None \<Longrightarrow>
   handleMessage methodList message = Returned [error_frame ''Malformed JSON'' Undefined]"
  by (simp add: handleMessage_def send_json_error_envelope)

lemma handleMessage_invalid_method:
  assumes "JSON_parse message = Some parsed" and "parsed \<noteq> Null"
    and "\<forall>name. Get parsed ''method'' = Str name \<longrightarrow> name = []"
  shows "handleMessage methodList message =
         Returned [error_frame ''Missing or invalid method'' (Get parsed ''id'')]"
proof -
  have c: "RequireObjectCoercible parsed"
    using assms(1,2) by (simp add: JSON_parse_coercible)
  have "\<not> truthy (Get parsed ''method'') \<or> typeof (Get parsed ''method'') \<noteq> ''string''"
    using assms(3) by (cases "Get parsed ''method''") (simp_all add: truthy_def typeof_def)
  then show ?thesis
    using assms(1) c by (simp add: handleMessage_def Let_def send_json_error_envelope)
qed

lemma handleMessage_named:
  assumes "JSON_parse message = Some parsed" and "parsed \<noteq> Null"
    and "Get parsed ''method'' = Str name" and "name \<noteq> []"
  shows "handleMessage methodList message =
         (case lookup methodList name of
            Some (Registered callback) \<Rightarrow>
              Returned (map (success_frame (Get parsed ''id'')) (replies (callback (Get parsed ''payload'')))
                        @ (if throws (callback (Get parsed ''payload''))
                           then [error_frame ''Method handler error'' (Get parsed ''id'')] else []))
          | Some Inherited_object \<Rightarrow> Returned [error_frame ''Method handler error'' (Get parsed ''id'')]
          | Some (Inherited_function f) \<Rightarrow> Called_builtin f (Get parsed ''payload'')
          | None \<Rightarrow> Returned [error_frame ''Method not found'' (Get parsed ''id'')])"
proof -
  have c: "RequireObjectCoercible parsed"
    using assms(1,2) by (simp add: JSON_parse_coercible)
  show ?thesis
    using assms(1,3,4) c
    by (simp add: handleMessage_def Let_def truthy_def typeof_def send_json_error_envelope
        concat_success_frames split: option.split member.split)
qed

text \<open>
  Claim C1, as the code has it. For a frame that \<open>JSON.parse\<close> rejects, the server
  sends the one envelope \<open>{error: true, message: "Malformed JSON"}\<close> (the \<open>undefined\<close>
  id is not serialized). For a frame that parses to a value other than \<open>null\<close>: when
  \<open>method\<close> is absent, not a string or the empty string, it sends the one envelope
  "Missing or invalid method" echoing the id; when \<open>method\<close> is a non-empty string that
  is neither registered nor the name of a property inherited from \<open>Object.prototype\<close>,
  it sends the one envelope "Method not found" echoing the id; when \<open>method\<close> names a
  registered handler whose call throws, it sends the handler's replies followed by
  exactly one error envelope, "Method handler error" echoing the id.
\<close>

theorem handleMessage_error_replies:
  "(JSON_parse message = None \<longrightarrow>
      handleMessage methodList message = Returned [error_frame ''Malformed JSON'' Undefined]
      \<and> error_frame ''Malformed JSON'' Undefined
          = JSONText (JObj [(''error'', JBool True), (''message'', JStr ''Malformed JSON'')]))
   \<and> (JSON_parse message = Some parsed \<and> parsed \<noteq> Null
        \<and> (\<forall>name. Get parsed ''method'' = Str name \<longrightarrow> name = []) \<longrightarrow>
      handleMessage methodList message =
        Returned [error_frame ''Missing or invalid method'' (Get parsed ''id'')])
   \<and> (JSON_parse message = Some parsed \<and> parsed \<noteq> Null
        \<and> Get parsed ''method'' = Str name \<and> name \<noteq> []
        \<and> methodList name = None
        \<and> name \<noteq> ''__proto__'' \<and> name \<notin> set Object_prototype_functions \<longrightarrow>
      handleMessage methodList message =
        Returned [error_frame ''Method not found'' (Get parsed ''id'')])
   \<and> (JSON_parse message = Some parsed \<and> parsed \<noteq> Null
        \<and> Get parsed ''method'' = Str name \<and> name \<noteq> []
        \<and> methodList name = Some callback
        \<and> throws (callback (Get parsed ''payload'')) \<longrightarrow>
      (\<exists>sent. handleMessage methodList message = Returned sent
         \<and> sent = map (success_frame (Get parsed ''id'')) (replies (callback (Get parsed ''payload'')))
                  @ [error_frame ''Method handler error'' (Get parsed ''id'')]
         \<and> filter is_error_envelope sent
             = [error_frame ''Method handler error'' (Get parsed ''id'')]))"
proof (intro conjI impI)
  assume "JSON_parse message = None"
  then show "handleMessage methodList message = Returned [error_frame ''Malformed JSON'' Undefined]"
    by (rule handleMessage_malformed)
next
  show "error_frame ''Malformed JSON'' Undefined
          = JSONText (JObj [(''error'', JBool True), (''message'', JStr ''Malformed JSON'')])"
    by (simp add: error_frame_def)
next
  assume "JSON_parse message = Some parsed \<and> parsed \<noteq> Null
        \<and> (\<forall>name. Get parsed ''method'' = Str name \<longrightarrow> name = [])"
  then show "handleMessage methodList message =
        Returned [error_frame ''Missing or invalid method'' (Get parsed ''id'')]"
    by (simp add: handleMessage_invalid_method)
next
  assume a: "JSON_parse message = Some parsed \<and> parsed \<noteq> Null
        \<and> Get parsed ''method'' = Str name \<and> name \<noteq> []
        \<and> methodList name = None
        \<and> name \<noteq> ''__proto__'' \<and> name \<notin> set Object_prototype_functions"
  then have "lookup methodList name = None"
    by (simp add: lookup_def)
  with a show "handleMessage methodList message =
        Returned [error_frame ''Method not found'' (Get parsed ''id'')]"
    by (simp add: handleMessage_named)
next
  assume a: "JSON_parse message = Some parsed \<and> parsed \<noteq> Null
        \<and> Get parsed ''method'' = Str name \<and> name \<noteq> []
        \<and> methodList name = Some callback
        \<and> throws (callback (Get parsed ''payload''))"
  then have "lookup methodList name = Some (Registered callback)"
    by (simp add: lookup_def)
  with a have "handleMessage methodList message =
      Returned (map (success_frame (Get parsed ''id'')) (replies (callback (Get parsed ''payload'')))
                  @ [error_frame ''Method handler error'' (Get parsed ''id'')])"
    by (simp add: handleMessage_named)
  then show "\<exists>sent. handleMessage methodList message = Returned sent
         \<and> sent = map (success_frame (Get parsed ''id'')) (replies (callback (Get parsed ''payload'')))
                  @ [error_frame ''Method handler error'' (Get parsed ''id'')]
         \<and> filter is_error_envelope sent
             = [error_frame ''Method handler error'' (Get parsed ''id'')]"
    by (simp add: filter_success_frames is_error_envelope_error_frame)
qed

text \<open>
  The four cases of C1 at the frames of the repository's tests: \<open>not json\<close>,
  \<open>{payload: "hi", id: 2}\<close>, \<open>{method: "notfound", payload: "hi", id: 3}\<close> and
  \<open>{method: "fail", payload: "hi", id: 4}\<close> with a handler that throws.
\<close>

theorem handleMessage_error_replies_witness:
  "handleMessage Map.empty (NotJSON ''not json'')
     = Returned [JSONText (JObj [(''error'', JBool True), (''message'', JStr ''Malformed JSON'')])]
   \<and> handleMessage Map.empty (JSONText (JObj [(''payload'', JStr ''hi''), (''id'', JNum (Finite 2))]))
     = Returned [JSONText (JObj [(''error'', JBool True),
                  (''message'', JStr ''Missing or invalid method''), (''id'', JNum (Finite 2))])]
   \<and> handleMessage Map.empty
        (JSONText (JObj [(''method'', JStr ''notfound''), (''payload'', JStr ''hi''), (''id'', JNum (Finite 3))]))
     = Returned [JSONText (JObj [(''error'', JBool True),
                  (''message'', JStr ''Method not found''), (''id'', JNum (Finite 3))])]
   \<and> handleMessage [''fail'' \<mapsto> (\<lambda>payload. \<lparr>replies = [], throws = True\<rparr>)]
        (JSONText (JObj [(''method'', JStr ''fail''), (''payload'', JStr ''hi''), (''id'', JNum (Finite 4))]))
     = Returned [JSONText (JObj [(''error'', JBool True),
                  (''message'', JStr ''Method handler error''), (''id'', JNum (Finite 4))])]"
proof (intro conjI)
  show "handleMessage Map.empty (NotJSON ''not json'')
     = Returned [JSONText (JObj [(''error'', JBool True), (''message'', JStr ''Malformed JSON'')])]"
    using handleMessage_error_replies [where message = "NotJSON ''not json''" and methodList = Map.empty]
    by (simp add: JSON_parse_def)
next
  let ?m = "JSONText (JObj [(''payload'', JStr ''hi''), (''id'', JNum (Finite 2))])"
  let ?p = "Obj [(''payload'', Str ''hi''), (''id'', Num (Finite 2))]"
  have h: "JSON_parse ?m = Some ?p \<and> ?p \<noteq> Null \<and> (\<forall>name. Get ?p ''method'' = Str name \<longrightarrow> name = [])"
    by (simp add: JSON_parse_def Get_def)
  show "handleMessage Map.empty ?m
     = Returned [JSONText (JObj [(''error'', JBool True),
                  (''message'', JStr ''Missing or invalid method''), (''id'', JNum (Finite 2))])]"
    using handleMessage_error_replies [where message = ?m and methodList = Map.empty and parsed = ?p] h
    by (simp add: error_frame_def Get_def)
next
  let ?m = "JSONText (JObj [(''method'', JStr ''notfound''), (''payload'', JStr ''hi''), (''id'', JNum (Finite 3))])"
  let ?p = "Obj [(''method'', Str ''notfound''), (''payload'', Str ''hi''), (''id'', Num (Finite 3))]"
  have h: "JSON_parse ?m = Some ?p \<and> ?p \<noteq> Null \<and> Get ?p ''method'' = Str ''notfound''
           \<and> ''notfound'' \<noteq> [] \<and> Map.empty ''notfound'' = (None :: handler option)
           \<and> ''notfound'' \<noteq> ''__proto__'' \<and> ''notfound'' \<notin> set Object_prototype_functions"
    by (simp add: JSON_parse_def Get_def Object_prototype_functions_def)
  show "handleMessage Map.empty ?m
     = Returned [JSONText (JObj [(''error'', JBool True),
                  (''message'', JStr ''Method not found''), (''id'', JNum (Finite 3))])]"
    using handleMessage_error_replies [where message = ?m and methodList = Map.empty and parsed = ?p
        and name = "''notfound''"] h
    by (simp add: error_frame_def Get_def)
next
  let ?m = "JSONText (JObj [(''method'', JStr ''fail''), (''payload'', JStr ''hi''), (''id'', JNum (Finite 4))])"
  let ?p = "Obj [(''method'', Str ''fail''), (''payload'', Str ''hi''), (''id'', Num (Finite 4))]"
  let ?cb = "\<lambda>payload::jsval. \<lparr>replies = [], throws = True\<rparr>"
  have h: "JSON_parse ?m = Some ?p \<and> ?p \<noteq> Null \<and> Get ?p ''method'' = Str ''fail''
           \<and> ''fail'' \<noteq> [] \<and> [''fail'' \<mapsto> ?cb] ''fail'' = Some ?cb
           \<and> throws (?cb (Get ?p ''payload''))"
    by (simp add: JSON_parse_def Get_def)
  show "handleMessage [''fail'' \<mapsto> ?cb] ?m
     = Returned [JSONText (JObj [(''error'', JBool True),
                  (''message'', JStr ''Method handler error''), (''id'', JNum (Finite 4))])]"
    using handleMessage_error_replies [where message = ?m and methodList = "[''fail'' \<mapsto> ?cb]"
        and parsed = ?p and name = "''fail''" and callback = ?cb] h
    by (simp add: error_frame_def Get_def)
qed

text \<open>
  C1 as stated fails at the frame \<open>{method: "", id: 3}\<close> on a server with no handlers:
  the method is present and is a string, it is not in the method table, and the reply is
  "Missing or invalid method", not "Method not found" (the guard \<open>!method\<close> rejects the
  empty string).
\<close>

theorem handleMessage_empty_method_counterexample:
  "handleMessage Map.empty (JSONText (JObj [(''method'', JStr ''''), (''id'', JNum (Finite 3))]))
     = Returned [JSONText (JObj [(''error'', JBool True),
                  (''message'', JStr ''Missing or invalid method''), (''id'', JNum (Finite 3))])]
   \<and> handleMessage Map.empty (JSONText (JObj [(''method'', JStr ''''), (''id'', JNum (Finite 3))]))
     \<noteq> Returned [JSONText (JObj [(''error'', JBool True),
                  (''message'', JStr ''Method not found''), (''id'', JNum (Finite 3))])]"
  by (simp add: handleMessage_def JSON_parse_def RequireObjectCoercible_def Get_def truthy_def
      send_json_def JSON_stringify_def error_envelope_def)

text \<open>
  Outside the cases above: the frame \<open>null\<close> parses, and destructuring it raises a
  TypeError that \<open>handleMessage\<close> does not catch; an unregistered method named like a
  member of \<open>Object.prototype\<close> is found by \<open>methodList[method]\<close>, so "Method not found"
  is not sent.
\<close>

lemma handleMessage_null_frame: "handleMessage methodList (JSONText JNull) = Threw []"
  by (simp add: handleMessage_def JSON_parse_def RequireObjectCoercible_def)

lemma handleMessage_inherited_toString:
  "handleMessage Map.empty (JSONText (JObj [(''method'', JStr ''toString''), (''id'', JNum (Finite 5))]))
     = Called_builtin ''toString'' Undefined"
  by (simp add: handleMessage_def JSON_parse_def RequireObjectCoercible_def Get_def truthy_def
      typeof_def lookup_def Object_prototype_functions_def)

lemma handleMessage_inherited_proto:
  "handleMessage Map.empty (JSONText (JObj [(''method'', JStr ''__proto__''), (''id'', JNum (Finite 5))]))
     = Returned [JSONText (JObj [(''error'', JBool True),
                  (''message'', JStr ''Method handler error''), (''id'', JNum (Finite 5))])]"
  by (simp add: handleMessage_def JSON_parse_def RequireObjectCoercible_def Get_def truthy_def
      typeof_def lookup_def send_json_def JSON_stringify_def error_envelope_def)

lemma error_frame_no_id:
  "\<exists>members. error_frame message Undefined = JSONText (JObj members) \<and> ''id'' \<notin> fst ` set members
     \<and> (\<exists>received. JSON_parse (error_frame message Undefined) = Some received
           \<and> Get received ''id'' = Undefined \<and> Get received ''id'' \<noteq> Null)"
  by (simp add: error_frame_def JSON_parse_def Get_def)

lemma success_frame_no_id:
  "\<exists>members. success_frame Undefined data = JSONText (JObj members) \<and> ''id'' \<notin> fst ` set members
     \<and> (\<exists>received. JSON_parse (success_frame Undefined data) = Some received
           \<and> Get received ''id'' = Undefined \<and> Get received ''id'' \<noteq> Null)"
  by (simp add: success_frame_def JSON_parse_def Get_def split: option.split)

text \<open>
  Claim C10. When the request carries no id (the frame is not JSON, or the parsed value
  has no \<open>id\<close>), every frame that \<open>handleMessage\<close> writes is a JSON object without a
  member named \<open>id\<close>, and the client that parses it reads \<open>undefined\<close> for \<open>id\<close>, not
  \<open>null\<close>.
\<close>

theorem absent_id_not_serialized:
  assumes ret: "handleMessage methodList message = Returned sent"
    and absent: "JSON_parse message = None
                 \<or> (\<exists>parsed. JSON_parse message = Some parsed \<and> Get parsed ''id'' = Undefined)"
    and reply: "reply \<in> set sent"
  shows "\<exists>members. reply = JSONText (JObj members) \<and> ''id'' \<notin> fst ` set members
     \<and> (\<exists>received. JSON_parse reply = Some received
           \<and> Get received ''id'' = Undefined \<and> Get received ''id'' \<noteq> Null)"
proof (cases "JSON_parse message")
  case None
  then have "reply = error_frame ''Malformed JSON'' Undefined"
    using ret reply by (auto simp: handleMessage_malformed)
  then show ?thesis by (simp only: error_frame_no_id)
next
  case (Some parsed)
  with absent have ident: "Get parsed ''id'' = Undefined" by simp
  have nn: "parsed \<noteq> Null"
    using ret Some by (auto simp: handleMessage_def RequireObjectCoercible_def)
  show ?thesis
  proof (cases "\<exists>name. Get parsed ''method'' = Str name \<and> name \<noteq> []")
    case False
    then have "reply = error_frame ''Missing or invalid method'' Undefined"
      using ret reply Some nn ident handleMessage_invalid_method [of message parsed methodList]
      by auto
    then show ?thesis by (simp only: error_frame_no_id)
  next
    case True
    then obtain name where name: "Get parsed ''method'' = Str name" "name \<noteq> []" by blast
    have "reply \<in> range (success_frame Undefined) \<or> reply \<in> range (\<lambda>m. error_frame m Undefined)"
      using ret reply handleMessage_named [OF Some nn name, of methodList] ident
      by (auto split: option.splits member.splits if_splits)
    then show ?thesis
      using error_frame_no_id success_frame_no_id by (auto simp only: image_iff)
  qed
qed

text \<open>
  C10 at the malformed frame \<open>not json\<close>, and at the request \<open>{method: "echo",
  payload: "hi"}\<close> without id, against a handler that replies with its payload.
\<close>

theorem absent_id_not_serialized_witness:
  "handleMessage Map.empty (NotJSON ''not json'')
     = Returned [JSONText (JObj [(''error'', JBool True), (''message'', JStr ''Malformed JSON'')])]
   \<and> JSON_parse (NotJSON ''not json'') = None
   \<and> (\<exists>members. JSONText (JObj [(''error'', JBool True), (''message'', JStr ''Malformed JSON'')])
          = JSONText (JObj members) \<and> ''id'' \<notin> fst ` set members
        \<and> (\<exists>received.
              JSON_parse (JSONText (JObj [(''error'', JBool True), (''message'', JStr ''Malformed JSON'')]))
                = Some received
              \<and> Get received ''id'' = Undefined \<and> Get received ''id'' \<noteq> Null))
   \<and> handleMessage [''echo'' \<mapsto> (\<lambda>payload. \<lparr>replies = [payload], throws = False\<rparr>)]
        (JSONText (JObj [(''method'', JStr ''echo''), (''payload'', JStr ''hi'')]))
     = Returned [JSONText (JObj [(''data'', JStr ''hi'')])]
   \<and> (\<exists>members. JSONText (JObj [(''data'', JStr ''hi'')]) = JSONText (JObj members)
        \<and> ''id'' \<notin> fst ` set members
        \<and> (\<exists>received. JSON_parse (JSONText (JObj [(''data'', JStr ''hi'')])) = Some received
              \<and> Get received ''id'' = Undefined \<and> Get received ''id'' \<noteq> Null))"
proof -
  let ?e = "JSONText (JObj [(''error'', JBool True), (''message'', JStr ''Malformed JSON'')])"
  let ?ml = "[''echo'' \<mapsto> (\<lambda>payload. \<lparr>replies = [payload], throws = False\<rparr>)]"
  let ?m = "JSONText (JObj [(''method'', JStr ''echo''), (''payload'', JStr ''hi'')])"
  let ?d = "JSONText (JObj [(''data'', JStr ''hi'')])"
  have r1: "handleMessage Map.empty (NotJSON ''not json'') = Returned [?e]"
    by (simp add: handleMessage_def JSON_parse_def send_json_def JSON_stringify_def
        error_envelope_def)
  have p1: "JSON_parse (NotJSON ''not json'') = None"
    by (simp add: JSON_parse_def)
  have r2: "handleMessage ?ml ?m = Returned [?d]"
    by (simp add: handleMessage_def JSON_parse_def RequireObjectCoercible_def Get_def truthy_def
        typeof_def lookup_def send_json_def JSON_stringify_def success_envelope_def)
  have p2: "JSON_parse ?m = None
            \<or> (\<exists>parsed. JSON_parse ?m = Some parsed \<and> Get parsed ''id'' = Undefined)"
    by (simp add: JSON_parse_def Get_def)
  from absent_id_not_serialized [OF r1 disjI1 [OF p1], of ?e]
       absent_id_not_serialized [OF r2 p2, of ?d] r1 p1 r2
  show ?thesis by simp
qed

section \<open>Properties of the client\<close>

lemma forEach_never_throws:
  assumes "\<And>x c. snd (f x c) = None"
  shows "forEach f xs c = (fold (\<lambda>x c. fst (f x c)) xs c, None)"
proof (induction xs arbitrary: c)
  case Nil
  show ?case by simp
next
  case (Cons x xs)
  obtain c' where "f x c = (c', None)"
    using assms [of x c] by (cases "f x c") auto
  then show ?case using Cons.IH by simp
qed

lemma try_catch_console_None:
  "snd (try_catch body (\<lambda>e c. (console_error label c, None)) c) = None"
  by (simp add: try_catch_def split: prod.split option.split)

lemma onmessage_fold:
  "onmessage event c = (fold (deliver event) (onMessageListeners c) c, None)"
  unfolding onmessage_def deliver_def
  by (rule forEach_never_throws) (rule try_catch_console_None)

lemma deliver_invocations:
  "invocations (deliver event l c) = invocations c @ [(identity l, event)]"
  by (cases l)
     (auto simp: deliver_def try_catch_def Let_def console_error_def removeListener_def settle_def
           split: option.split prod.split)

lemma fold_deliver_invocations:
  "invocations (fold (deliver event) ls c) = invocations c @ map (\<lambda>l. (identity l, event)) ls"
  by (induction ls arbitrary: c) (simp_all add: deliver_invocations)

lemma filter_identity_other:
  "m \<noteq> n \<Longrightarrow> filter (\<lambda>l. identity l = n) (filter (\<lambda>l. identity l \<noteq> m) ls) = filter (\<lambda>l. identity l = n) ls"
  by (induction ls) auto

lemma filter_identity_same:
  "filter (\<lambda>l. identity l = n) (filter (\<lambda>l. identity l \<noteq> n) ls) = []"
  by (induction ls) auto

lemma deliver_User:
  "deliver event (User_listener n f) c =
     (if f event = None then logged n event c
      else console_error ''Listener error:'' (logged n event c))"
  by (simp add: deliver_def try_catch_def logged_def split: option.split)

lemma deliver_Request:
  "deliver event (Request_listener n messageId) c =
     (if matches messageId event
      then removeListener n (settle n (resolve (Value (reply_data event))) (logged n event c))
      else if throws_TypeError event then console_error ''Listener error:'' (logged n event c)
      else logged n event c)"
  by (simp add: deliver_def try_catch_def logged_def matches_def reply_data_def throws_TypeError_def
      Let_def split: option.split)

lemma deliver_Stream:
  "deliver event (Stream_listener n messageId callback) c =
     (if matches messageId event
      then (if callback (reply_data event) = None
            then called n (reply_data event) (logged n event c)
            else console_error ''Listener error:'' (called n (reply_data event) (logged n event c)))
      else if throws_TypeError event then console_error ''Listener error:'' (logged n event c)
      else logged n event c)"
  by (simp add: deliver_def try_catch_def logged_def called_def matches_def reply_data_def
      throws_TypeError_def Let_def split: option.split)

lemma view_logged:
  "registered n (logged m event c) = registered n c"
  "calls_of n (logged m event c) = calls_of n c"
  "promises (logged m event c) = promises c"
  "invocations_of n (logged m event c)
     = invocations_of n c @ (if m = n then [event] else [])"
  by (simp_all add: logged_def registered_def calls_of_def invocations_of_def)

lemma view_console_error:
  "registered n (console_error label c) = registered n c"
  "calls_of n (console_error label c) = calls_of n c"
  "promises (console_error label c) = promises c"
  "invocations_of n (console_error label c) = invocations_of n c"
  by (simp_all add: console_error_def registered_def calls_of_def invocations_of_def)

lemma onMessageListeners_removeListener:
  "onMessageListeners (removeListener m c) = filter (\<lambda>l. identity l \<noteq> m) (onMessageListeners c)"
  by (simp add: removeListener_def)

lemma registered_removeListener_same: "registered n (removeListener n c) = []"
  unfolding registered_def onMessageListeners_removeListener by (rule filter_identity_same)

lemma registered_removeListener_other:
  "m \<noteq> n \<Longrightarrow> registered n (removeListener m c) = registered n c"
  unfolding registered_def onMessageListeners_removeListener by (rule filter_identity_other)

lemma registered_removeListener:
  "registered n (removeListener m c) = (if m = n then [] else registered n c)"
  using registered_removeListener_same [of n c] registered_removeListener_other [of m n c]
  by (cases "m = n") simp_all

lemma view_removeListener:
  "calls_of n (removeListener m c) = calls_of n c"
  "promises (removeListener m c) = promises c"
  "invocations_of n (removeListener m c) = invocations_of n c"
  by (simp_all add: removeListener_def calls_of_def invocations_of_def)

lemma view_settle:
  "registered n (settle m f c) = registered n c"
  "calls_of n (settle m f c) = calls_of n c"
  "promises (settle m f c) n = (if m = n then f (promises c n) else promises c n)"
  "invocations_of n (settle m f c) = invocations_of n c"
  by (simp_all add: settle_def registered_def calls_of_def invocations_of_def)

lemma view_called:
  "registered n (called m d c) = registered n c"
  "calls_of n (called m d c) = calls_of n c @ (if m = n then [d] else [])"
  "promises (called m d c) = promises c"
  "invocations_of n (called m d c) = invocations_of n c"
  by (simp_all add: called_def registered_def calls_of_def invocations_of_def)

lemmas view_simps = view_logged view_console_error registered_removeListener view_removeListener
  view_settle view_called

lemma deliver_other:
  assumes "identity l \<noteq> n"
  shows "registered n (deliver event l c) = registered n c"
    and "calls_of n (deliver event l c) = calls_of n c"
    and "promises (deliver event l c) n = promises c n"
    and "invocations_of n (deliver event l c) = invocations_of n c"
proof -
  have "registered n (deliver event l c) = registered n c
      \<and> calls_of n (deliver event l c) = calls_of n c
      \<and> promises (deliver event l c) n = promises c n
      \<and> invocations_of n (deliver event l c) = invocations_of n c"
  proof (cases l)
    case (Request_listener m messageId)
    with assms have "m \<noteq> n" by simp
    then show ?thesis
      by (simp add: Request_listener deliver_Request view_simps)
  next
    case (Stream_listener m messageId callback)
    with assms have "m \<noteq> n" by simp
    then show ?thesis
      by (simp add: Stream_listener deliver_Stream view_simps)
  next
    case (User_listener m f)
    with assms have "m \<noteq> n" by simp
    then show ?thesis
      by (simp add: User_listener deliver_User view_simps)
  qed
  then show "registered n (deliver event l c) = registered n c"
    and "calls_of n (deliver event l c) = calls_of n c"
    and "promises (deliver event l c) n = promises c n"
    and "invocations_of n (deliver event l c) = invocations_of n c"
    by simp_all
qed

lemma deliver_request:
  "registered n (deliver event (Request_listener n messageId) c)
     = (if matches messageId event then [] else registered n c)"
  "promises (deliver event (Request_listener n messageId) c) n
     = (if matches messageId event then resolve (Value (reply_data event)) (promises c n)
        else promises c n)"
  "calls_of n (deliver event (Request_listener n messageId) c) = calls_of n c"
  by (simp_all add: deliver_Request view_simps)



lemma resolve_idem: "resolve v (resolve v p) = resolve v p"
  by (simp add: resolve_def split: promise.split)

lemma fold_deliver_request:
  assumes "\<forall>l \<in> set ls. identity l = n \<longrightarrow> l = Request_listener n messageId"
  shows "registered n (fold (deliver event) ls c)
           = (if matches messageId event \<and> (\<exists>l \<in> set ls. identity l = n) then [] else registered n c)
       \<and> promises (fold (deliver event) ls c) n
           = (if matches messageId event \<and> (\<exists>l \<in> set ls. identity l = n)
              then resolve (Value (reply_data event)) (promises c n) else promises c n)
       \<and> calls_of n (fold (deliver event) ls c) = calls_of n c"
  using assms
proof (induction ls arbitrary: c)
  case Nil
  show ?case by simp
next
  case (Cons l ls)
  have rest: "\<forall>l \<in> set ls. identity l = n \<longrightarrow> l = Request_listener n messageId"
    using Cons.prems by simp
  note IH = Cons.IH [OF rest, of "deliver event l c"]
  show ?case
  proof (cases "identity l = n")
    case True
    with Cons.prems have l: "l = Request_listener n messageId" by simp
    show ?thesis
      using IH by (auto simp: l deliver_request resolve_idem)
  next
    case False
    show ?thesis
      using IH False by (auto simp: deliver_other)
  qed
qed


lemma send_json_request_envelope:
  "send_json (request_envelope messageId method data) = [request_frame messageId method data]"
  by (simp add: send_json_def request_envelope_def request_frame_def JSON_stringify_def
      split: option.split)

lemma registered_singleton:
  assumes "registered n c = [L]"
  shows "\<forall>l \<in> set (onMessageListeners c). identity l = n \<longrightarrow> l = L"
    and "\<exists>l \<in> set (onMessageListeners c). identity l = n"
    and "length (filter (\<lambda>l. identity l = n) (onMessageListeners c)) = 1"
proof -
  have s: "set (filter (\<lambda>l. identity l = n) (onMessageListeners c)) = {L}"
    using assms by (simp add: registered_def)
  show "\<forall>l \<in> set (onMessageListeners c). identity l = n \<longrightarrow> l = L"
    using s by auto
  show "\<exists>l \<in> set (onMessageListeners c). identity l = n"
    using s by auto
  show "length (filter (\<lambda>l. identity l = n) (onMessageListeners c)) = 1"
    using assms by (simp add: registered_def)
qed


lemma onmessage_request:
  assumes "registered n c = [Request_listener n messageId]"
  shows "registered n (fst (onmessage event c))
           = (if matches messageId event then [] else [Request_listener n messageId])"
    and "promises (fst (onmessage event c)) n
           = (if matches messageId event then resolve (Value (reply_data event)) (promises c n)
              else promises c n)"
  using fold_deliver_request [OF registered_singleton(1) [OF assms], of event c]
        registered_singleton(2) [OF assms] assms
  by (simp_all add: onmessage_fold)





lemma well_formed_fresh:
  assumes "well_formed c"
  shows "registered (allocated c) c = []"
    and "calls_of (allocated c) c = []"
    and "invocations_of (allocated c) c = []"
    and "\<forall>w \<in> set (openWaiters c). waiter_identity (snd w) \<noteq> Some (allocated c)"
proof -
  show "registered (allocated c) c = []"
    using assms by (auto simp: well_formed_def registered_def filter_empty_conv)
  show "calls_of (allocated c) c = []"
    using assms by (auto simp: well_formed_def calls_of_def filter_empty_conv)
  show "invocations_of (allocated c) c = []"
    using assms by (auto simp: well_formed_def invocations_of_def filter_empty_conv)
  show "\<forall>w \<in> set (openWaiters c). waiter_identity (snd w) \<noteq> Some (allocated c)"
    using assms by (auto simp: well_formed_def)
qed

lemma send_body_fields:
  "onMessageListeners (send_body n method data random c)
     = onMessageListeners c @ [Request_listener n random]"
  "promises (send_body n method data random c) = promises c"
  "outbox (send_body n method data random c)
     = outbox c @ [(socket c, request_frame random method data)]"
  "calls (send_body n method data random c) = calls c"
  "invocations (send_body n method data random c) = invocations c"
  "socket (send_body n method data random c) = socket c"
  "isOpen (send_body n method data random c) = isOpen c"
  "errorHandlers (send_body n method data random c) = errorHandlers c @ [(socket c, n)]"
  by (simp_all add: send_body_def send'_def addListener_def Let_def send_json_request_envelope)

lemma stream_body_fields:
  "onMessageListeners (stream_body n method data callback random c)
     = onMessageListeners c @ [Stream_listener n random callback]"
  "promises (stream_body n method data callback random c)
     = (promises c)(n := resolve (Stop n) (promises c n))"
  "outbox (stream_body n method data callback random c)
     = outbox c @ [(socket c, request_frame random method data)]"
  "calls (stream_body n method data callback random c) = calls c"
  "invocations (stream_body n method data callback random c) = invocations c"
  "socket (stream_body n method data callback random c) = socket c"
  "isOpen (stream_body n method data callback random c) = isOpen c"
  by (simp_all add: stream_body_def send'_def addListener_def settle_def Let_def
      send_json_request_envelope)

lemma registered_send_body:
  "registered n (send_body m method data random c)
     = registered n c @ (if m = n then [Request_listener m random] else [])"
  by (simp add: registered_def send_body_fields)

lemma registered_stream_body:
  "registered n (stream_body m method data callback random c)
     = registered n c @ (if m = n then [Stream_listener m random callback] else [])"
  by (simp add: registered_def stream_body_fields)


lemma fresh_fields:
  "fst (fresh c) = allocated c"
  "onMessageListeners (snd (fresh c)) = onMessageListeners c"
  "promises (snd (fresh c)) = (promises c)(allocated c := Pending)"
  "outbox (snd (fresh c)) = outbox c"
  "calls (snd (fresh c)) = calls c"
  "invocations (snd (fresh c)) = invocations c"
  "socket (snd (fresh c)) = socket c"
  "isOpen (snd (fresh c)) = isOpen c"
  "openWaiters (snd (fresh c)) = openWaiters c"
  "allocated (snd (fresh c)) = Suc (allocated c)"
  by (simp_all add: fresh_def)

lemma send_open:
  assumes "isOpen c"
  shows "send method data random c
           = (allocated c, send_body (allocated c) method data random (snd (fresh c)))"
  using assms by (simp add: send_def open'_def fresh_def Let_def)

lemma send_suspended:
  assumes "\<not> isOpen c"
  shows "send method data random c
           = (allocated c,
              (snd (fresh c))\<lparr>openWaiters := openWaiters c
                 @ [(socket c, Send_waiter (allocated c) method data random)]\<rparr>)"
  using assms by (simp add: send_def open'_def fresh_def Let_def)





lemma receive_append: "receive (xs @ ys) c = receive ys (receive xs c)"
  by (simp add: receive_def)

lemma receive_Cons: "receive (x # xs) c = receive xs (fst (onmessage x c))"
  by (simp add: receive_def)

lemma receive_Nil: "receive [] c = c"
  by (simp add: receive_def)



lemma call_listener_thrown:
  "snd (call_listener l event c) = snd (call_listener l event c')"
  by (cases l) (simp_all add: Let_def split: option.split)

lemma deliver_console:
  "console (deliver event l c)
     = console c @ (case snd (call_listener l event c) of None \<Rightarrow> [] | Some e \<Rightarrow> [''Listener error:''])"
  by (cases l)
     (simp_all add: deliver_def try_catch_def console_error_def removeListener_def settle_def
        Let_def split: option.split)

lemma fold_deliver_console:
  "console (fold (deliver event) ls c)
     = console c @ concat (map (\<lambda>l. case snd (call_listener l event c0) of
                                       None \<Rightarrow> [] | Some e \<Rightarrow> [''Listener error:'']) ls)"
proof (induction ls arbitrary: c)
  case Nil
  show ?case by simp
next
  case (Cons l ls)
  show ?case
    using Cons.IH [of "deliver event l c"] call_listener_thrown [of l event c c0]
    by (simp add: deliver_console)
qed

text \<open>
  Claim C7. The dispatch of an inbound frame lets no exception through; every listener
  that is in the registry when the frame arrives is invoked with the frame, in order; and
  each listener that throws is logged with \<open>Listener error:\<close>.
\<close>

theorem onmessage_catches_listener_errors:
  "snd (onmessage event c) = None
   \<and> invocations (fst (onmessage event c))
       = invocations c @ map (\<lambda>l. (identity l, event)) (onMessageListeners c)
   \<and> console (fst (onmessage event c))
       = console c @ concat (map (\<lambda>l. case snd (call_listener l event c) of
                                         None \<Rightarrow> [] | Some e \<Rightarrow> [''Listener error:''])
                               (onMessageListeners c))"
  by (simp add: onmessage_fold fold_deliver_invocations fold_deliver_console [where ?c0.0 = c])

lemma resumed_other:
  assumes "waiter_identity w \<noteq> Some n"
  shows "registered n (resumed w c) = registered n c
       \<and> promises (resumed w c) n = promises c n
       \<and> socket (resumed w c) = socket c
       \<and> isOpen (resumed w c) = isOpen c
       \<and> (\<exists>more. outbox (resumed w c) = outbox c @ more)"
  using assms
  by (cases w)
     (simp_all add: registered_send_body registered_stream_body send_body_fields
        stream_body_fields view_settle settle_def registered_def)

lemma fold_resumed_others:
  assumes "\<forall>w \<in> set ws. waiter_identity w \<noteq> Some n"
  shows "registered n (fold resumed ws c) = registered n c
       \<and> promises (fold resumed ws c) n = promises c n
       \<and> socket (fold resumed ws c) = socket c
       \<and> isOpen (fold resumed ws c) = isOpen c
       \<and> (\<exists>more. outbox (fold resumed ws c) = outbox c @ more)"
  using assms
proof (induction ws arbitrary: c)
  case Nil
  show ?case by simp
next
  case (Cons w ws)
  have w: "waiter_identity w \<noteq> Some n" and ws: "\<forall>w \<in> set ws. waiter_identity w \<noteq> Some n"
    using Cons.prems by simp_all
  from Cons.IH [OF ws, of "resumed w c"] resumed_other [OF w, of c]
  show ?case by auto
qed

lemma send_runs_body:
  assumes "well_formed c" and "send method data random c = (n, c1)"
    and "c2 = (if isOpen c then c1 else onopen (socket c) c1)"
  shows "n = allocated c"
    and "isOpen c2"
    and "\<exists>earlier. outbox c2 = outbox c @ earlier @ [(socket c, request_frame random method data)]"
    and "registered n c2 = [Request_listener n random]"
    and "promises c2 n = Pending"
proof -
  let ?n = "allocated c"
  have "n = ?n \<and> isOpen c2
      \<and> (\<exists>earlier. outbox c2 = outbox c @ earlier @ [(socket c, request_frame random method data)])
      \<and> registered ?n c2 = [Request_listener ?n random]
      \<and> promises c2 ?n = Pending"
  proof (cases "isOpen c")
    case True
    have eq: "n = ?n" "c2 = send_body ?n method data random (snd (fresh c))"
      using assms(2,3) True by (auto simp: send_open)
    have "registered ?n (snd (fresh c)) = []"
      using well_formed_fresh(1) [OF assms(1)] by (simp add: registered_def fresh_fields)
    then show ?thesis
      using True by (simp add: eq registered_send_body send_body_fields fresh_fields)
  next
    case False
    let ?k = "socket c"
    let ?w = "Send_waiter ?n method data random"
    let ?A = "filter (\<lambda>w. fst w = ?k) (openWaiters c)"
    let ?c' = "(snd (fresh c))\<lparr>openWaiters := filter (\<lambda>w. fst w \<noteq> ?k) (openWaiters c),
                 isOpen := True,
                 connects := (if onConnectCallback c then connects c + Suc (length ?A)
                              else connects c)\<rparr>"
    let ?c'' = "fold resumed (map snd ?A) ?c'"
    have eq: "n = ?n"
      "c1 = (snd (fresh c))\<lparr>openWaiters := openWaiters c @ [(?k, ?w)]\<rparr>"
      using assms(2) False by (auto simp: send_suspended)
    have c2: "c2 = send_body ?n method data random ?c''"
      using assms(3) False by (simp add: eq onopen_def Let_def fresh_def)
    have others: "\<forall>w \<in> set (map snd ?A). waiter_identity w \<noteq> Some ?n"
      using well_formed_fresh(4) [OF assms(1)] by auto
    have r0: "registered ?n ?c' = []"
      using well_formed_fresh(1) [OF assms(1)] by (simp add: registered_def fresh_def)
    have p0: "promises ?c' ?n = Pending" "socket ?c' = ?k" "isOpen ?c'" "outbox ?c' = outbox c"
      by (simp_all add: fresh_def)
    from fold_resumed_others [OF others, of ?c'] r0 p0
    obtain more where c'': "registered ?n ?c'' = []" "promises ?c'' ?n = Pending"
      "socket ?c'' = ?k" "isOpen ?c''" "outbox ?c'' = outbox c @ more"
      by auto
    show ?thesis
      using c'' by (simp add: eq(1) c2 registered_send_body send_body_fields)
  qed
  then show "n = allocated c"
    and "isOpen c2"
    and "\<exists>earlier. outbox c2 = outbox c @ earlier @ [(socket c, request_frame random method data)]"
    and "registered n c2 = [Request_listener n random]"
    and "promises c2 n = Pending"
    by simp_all
qed



lemma connected_client_fields:
  "isOpen connected_client" "socket connected_client = 1" "allocated connected_client = 0"
  "onMessageListeners connected_client = []" "calls connected_client = []"
  "invocations connected_client = []" "openWaiters connected_client = []"
  "outbox connected_client = []" "isConnecting connected_client = False"
  "console connected_client = []"
  by (simp_all add: connected_client_def run_def new_WSClient_def connect_def open'_def
      onopen_def Let_def)

lemma well_formed_connected_client: "well_formed connected_client"
  by (simp add: well_formed_def connected_client_fields)




lemma new_WSClient_fields:
  "\<not> isOpen (new_WSClient r)" "socket (new_WSClient r) = 1" "allocated (new_WSClient r) = 0"
  "onMessageListeners (new_WSClient r) = []" "calls (new_WSClient r) = []"
  "invocations (new_WSClient r) = []" "openWaiters (new_WSClient r) = [(1, Connect_waiter)]"
  "outbox (new_WSClient r) = []" "isConnecting (new_WSClient r)"
  "shouldReconnect (new_WSClient r) = r" "reconnect (new_WSClient r) = r"
  "timers (new_WSClient r) = 0"
  by (simp_all add: new_WSClient_def connect_def open'_def)

lemma well_formed_new_WSClient: "well_formed (new_WSClient r)"
  by (simp add: well_formed_def new_WSClient_fields)


text \<open>
  C7 on a registry of three listeners, where the first throws an \<open>Error\<close> and the second
  (the listener of a pending request) throws a TypeError on the frame \<open>null\<close>: the third
  is still invoked.
\<close>

theorem onmessage_catches_listener_errors_witness:
  "snd (onmessage (JSONText JNull)
          (addListener (User_listener 2 (\<lambda>event. None))
            (addListener (Request_listener 1 ''k3x'')
              (addListener (User_listener 0 (\<lambda>event. Some (Error ''boom''))) connected_client))))
     = None
   \<and> invocations (fst (onmessage (JSONText JNull)
          (addListener (User_listener 2 (\<lambda>event. None))
            (addListener (Request_listener 1 ''k3x'')
              (addListener (User_listener 0 (\<lambda>event. Some (Error ''boom''))) connected_client)))))
     = [(0, JSONText JNull), (1, JSONText JNull), (2, JSONText JNull)]
   \<and> console (fst (onmessage (JSONText JNull)
          (addListener (User_listener 2 (\<lambda>event. None))
            (addListener (Request_listener 1 ''k3x'')
              (addListener (User_listener 0 (\<lambda>event. Some (Error ''boom''))) connected_client)))))
     = [''Listener error:'', ''Listener error:'']"
  using onmessage_catches_listener_errors [of "JSONText JNull"
          "addListener (User_listener 2 (\<lambda>event. None))
            (addListener (Request_listener 1 ''k3x'')
              (addListener (User_listener 0 (\<lambda>event. Some (Error ''boom''))) connected_client))"]
  by (simp add: addListener_def connected_client_fields JSON_parse_def RequireObjectCoercible_def)

subsection \<open>Every state a client reaches is well formed\<close>

text \<open>
  The properties above assume a well-formed state. A new client is well formed, and every
  event and every call keeps the state well formed.
\<close>

lemma well_formed_deliver:
  assumes "well_formed c" and "identity l < allocated c"
  shows "well_formed (deliver event l c) \<and> allocated (deliver event l c) = allocated c"
  using assms
  by (cases l)
     (auto simp: well_formed_def deliver_User deliver_Request deliver_Stream logged_def called_def
        console_error_def removeListener_def settle_def)

lemma well_formed_fold_deliver:
  assumes "well_formed c" and "\<forall>l \<in> set ls. identity l < allocated c"
  shows "well_formed (fold (deliver event) ls c)
       \<and> allocated (fold (deliver event) ls c) = allocated c"
  using assms
proof (induction ls arbitrary: c)
  case Nil
  then show ?case by simp
next
  case (Cons l ls)
  have d: "well_formed (deliver event l c)" "allocated (deliver event l c) = allocated c"
    using well_formed_deliver [of c l event] Cons.prems by simp_all
  show ?case
    using Cons.IH [OF d(1)] Cons.prems(2) d(2) by simp
qed

lemma well_formed_onmessage:
  assumes "well_formed c"
  shows "well_formed (fst (onmessage event c))"
proof -
  have l: "\<forall>l \<in> set (onMessageListeners c). identity l < allocated c"
    using assms by (simp add: well_formed_def)
  show ?thesis
    using well_formed_fold_deliver [OF assms l, of event] by (simp add: onmessage_fold)
qed

lemma well_formed_resumed:
  assumes "well_formed c" and "\<forall>n. waiter_identity w = Some n \<longrightarrow> n < allocated c"
  shows "well_formed (resumed w c) \<and> allocated (resumed w c) = allocated c"
  using assms
  by (cases w)
     (auto simp: well_formed_def send_body_def stream_body_def send'_def addListener_def
        settle_def Let_def)

lemma well_formed_failed:
  assumes "well_formed c"
  shows "well_formed (failed e w c) \<and> allocated (failed e w c) = allocated c"
  using assms by (cases w) (auto simp: well_formed_def settle_def)

lemma well_formed_errorHandler:
  assumes "well_formed c"
  shows "well_formed (errorHandler n c) \<and> allocated (errorHandler n c) = allocated c"
  using assms by (auto simp: well_formed_def errorHandler_def removeListener_def settle_def)

lemma well_formed_fold_resumed:
  assumes "well_formed c" and "\<forall>w \<in> set ws. \<forall>n. waiter_identity w = Some n \<longrightarrow> n < allocated c"
  shows "well_formed (fold resumed ws c) \<and> allocated (fold resumed ws c) = allocated c"
  using assms
proof (induction ws arbitrary: c)
  case Nil
  then show ?case by simp
next
  case (Cons w ws)
  have d: "well_formed (resumed w c)" "allocated (resumed w c) = allocated c"
    using well_formed_resumed [of c w] Cons.prems by simp_all
  show ?case
    using Cons.IH [OF d(1)] Cons.prems(2) d(2) by simp
qed

lemma well_formed_fold_failed:
  assumes "well_formed c"
  shows "well_formed (fold (failed e) ws c) \<and> allocated (fold (failed e) ws c) = allocated c"
  using assms
proof (induction ws arbitrary: c)
  case Nil
  then show ?case by simp
next
  case (Cons w ws)
  from well_formed_failed [OF Cons.prems, of e w] Cons.IH [of "failed e w c"]
  show ?case by simp
qed

lemma well_formed_fold_errorHandler:
  assumes "well_formed c"
  shows "well_formed (fold errorHandler ns c) \<and> allocated (fold errorHandler ns c) = allocated c"
  using assms
proof (induction ns arbitrary: c)
  case Nil
  then show ?case by simp
next
  case (Cons n ns)
  from well_formed_errorHandler [OF Cons.prems, of n] Cons.IH [of "errorHandler n c"]
  show ?case by simp
qed

lemma well_formed_open':
  assumes "well_formed c" and "\<forall>n. waiter_identity w = Some n \<longrightarrow> n < allocated c"
  shows "well_formed (open' w c)"
proof (cases "isOpen c")
  case True
  then show ?thesis
    using well_formed_resumed [OF assms] by (simp add: open'_def)
next
  case False
  then show ?thesis
    using assms by (auto simp: open'_def well_formed_def)
qed

lemma well_formed_connect:
  assumes "well_formed c"
  shows "well_formed (connect c)"
proof (cases "isConnecting c")
  case True
  then show ?thesis using assms by (simp add: connect_def)
next
  case False
  let ?c = "c\<lparr>isConnecting := True, shouldReconnect := reconnect c, socket := Suc (socket c),
              isOpen := False\<rparr>"
  have "well_formed ?c" using assms by (simp add: well_formed_def)
  then have "well_formed (open' Connect_waiter ?c)"
    by (rule well_formed_open') simp
  then show ?thesis using False by (simp add: connect_def)
qed

lemma well_formed_fresh_state:
  assumes "well_formed c"
  shows "well_formed (snd (fresh c))" and "allocated (snd (fresh c)) = Suc (allocated c)"
  using assms by (auto simp: well_formed_def fresh_def less_Suc_eq)

lemma well_formed_onopen:
  assumes "well_formed c"
  shows "well_formed (onopen k c)"
proof -
  let ?waiting = "filter (\<lambda>w. fst w = k) (openWaiters c)"
  let ?c1 = "c\<lparr>openWaiters := filter (\<lambda>w. fst w \<noteq> k) (openWaiters c)\<rparr>"
  let ?c2 = "if ?waiting = [] then ?c1
             else ?c1\<lparr>isOpen := True,
                       connects := (if onConnectCallback ?c1 then connects ?c1 + length ?waiting
                                    else connects ?c1)\<rparr>"
  have w2: "well_formed ?c2" "allocated ?c2 = allocated c"
    using assms by (auto simp: well_formed_def)
  have ids: "\<forall>w \<in> set (map snd ?waiting). \<forall>n. waiter_identity w = Some n \<longrightarrow> n < allocated ?c2"
    using assms by (auto simp: well_formed_def)
  have "onopen k c = fold resumed (map snd ?waiting) ?c2"
    by (simp add: onopen_def Let_def)
  then show ?thesis
    using well_formed_fold_resumed [OF w2(1) ids] by simp
qed

lemma well_formed_onerror:
  assumes "well_formed c"
  shows "well_formed (onerror k c)"
proof -
  let ?c1 = "if k = socket c
             then schedule_reconnect (console_error ''WebSocket error:'' c\<lparr>isOpen := False\<rparr>)
             else c"
  let ?c2 = "fold errorHandler (map snd (filter (\<lambda>h. fst h = k) (errorHandlers ?c1))) ?c1"
  let ?c3 = "?c2\<lparr>openWaiters := filter (\<lambda>w. fst w \<noteq> k) (openWaiters ?c2)\<rparr>"
  have 1: "well_formed ?c1"
    using assms by (auto simp: well_formed_def schedule_reconnect_def console_error_def)
  have 2: "well_formed ?c2"
    using well_formed_fold_errorHandler [OF 1] by simp
  have 3: "well_formed ?c3"
    using 2 by (auto simp: well_formed_def)
  have "onerror k c = fold (failed ErrorEvent) (map snd (filter (\<lambda>w. fst w = k) (openWaiters ?c2))) ?c3"
    by (simp add: onerror_def Let_def)
  then show ?thesis
    using well_formed_fold_failed [OF 3] by simp
qed

lemma well_formed_step:
  assumes "well_formed c"
  shows "well_formed (step e c)"
proof (cases e)
  case (Socket_open k)
  then show ?thesis using well_formed_onopen [OF assms] by simp
next
  case (Socket_close k)
  then show ?thesis
    using assms by (auto simp: onclose_def schedule_reconnect_def well_formed_def)
next
  case (Socket_error k)
  then show ?thesis using well_formed_onerror [OF assms] by simp
next
  case (Socket_message k message)
  then show ?thesis using well_formed_onmessage [OF assms] assms by simp
next
  case Timer_fires
  have "well_formed (c\<lparr>timers := timers c - 1\<rparr>)"
    using assms by (simp add: well_formed_def)
  then show ?thesis
    using Timer_fires assms well_formed_connect by (simp add: ontimer_def)
next
  case Call_close
  then show ?thesis using assms by (simp add: close_def well_formed_def)
next
  case (Call_send m d r)
  have "well_formed (open' (Send_waiter (allocated c) m d r) (snd (fresh c)))"
    using well_formed_fresh_state [OF assms] by (intro well_formed_open') simp_all
  then show ?thesis
    using Call_send by (simp add: send_def fresh_def Let_def)
next
  case (Call_stream m d cb r)
  have "well_formed (open' (Stream_waiter (allocated c) m d cb r) (snd (fresh c)))"
    using well_formed_fresh_state [OF assms] by (intro well_formed_open') simp_all
  then show ?thesis
    using Call_stream by (simp add: stream_def fresh_def Let_def)
next
  case (Call_stop n)
  then show ?thesis using assms by (auto simp: stop_def removeListener_def well_formed_def)
next
  case Call_open
  have "well_formed (open' (Open_waiter (allocated c)) (snd (fresh c)))"
    using well_formed_fresh_state [OF assms] by (intro well_formed_open') simp_all
  then show ?thesis
    using Call_open by (simp add: call_open_def fresh_def Let_def)
next
  case (Call_addListener f)
  then show ?thesis
    using assms
    by (auto simp: call_addListener_def addListener_def Let_def well_formed_def less_Suc_eq)
next
  case (Call_removeListener n)
  then show ?thesis using assms by (auto simp: removeListener_def well_formed_def)
next
  case Call_onConnect
  then show ?thesis using assms by (simp add: onConnect_def well_formed_def)
qed

lemma well_formed_run:
  assumes "well_formed c"
  shows "well_formed (run events c)"
  using assms
  by (induction events arbitrary: c) (simp_all add: run_def well_formed_step)

lemma well_formed_reachable: "well_formed (run events (new_WSClient reconnect'))"
  by (rule well_formed_run) (rule well_formed_new_WSClient)

section \<open>Properties of a request and its reply\<close>

lemma update_new: "k \<notin> fst ` set acc \<Longrightarrow> AList.update k v acc = acc @ [(k, v)]"
  by (induction acc) auto

lemma round_trip_all:
  "(json_value v \<longrightarrow> (\<exists>j. SerializeJSONProperty v = Some j \<and> InternalizeJSON j = v))"
  "(json_values xs \<longrightarrow> InternalizeArray (SerializeJSONArray xs) = xs)"
  "(json_properties ps \<longrightarrow>
      (\<forall>acc. distinct (map fst acc @ map fst ps) \<longrightarrow>
             InternalizeObject acc (SerializeJSONObject ps) = acc @ ps))"
proof (induction v and xs and ps
       rule: SerializeJSONProperty_SerializeJSONArray_SerializeJSONObject.induct)
  case (7 ps)
  then show ?case
    by (auto dest: spec [where x = "[]"])
next
  case (9 x xs)
  then show ?case by auto
next
  case (11 p ps)
  show ?case
  proof (intro impI allI)
    fix acc :: "(string \<times> jsval) list"
    assume j: "json_properties (p # ps)"
      and d: "distinct (map fst acc @ map fst (p # ps))"
    from j "11.IH"(1) obtain x where x: "SerializeJSONProperty (snd p) = Some x"
      "InternalizeJSON x = snd p" by auto
    have new: "fst p \<notin> fst ` set acc" using d by auto
    have d': "distinct (map fst (acc @ [p]) @ map fst ps)" using d by auto
    have "InternalizeObject (acc @ [p]) (SerializeJSONObject ps) = (acc @ [p]) @ ps"
      using "11.IH"(3) [OF x(1)] j d' by auto
    then show "InternalizeObject acc (SerializeJSONObject (p # ps)) = acc @ p # ps"
      using x new by (simp add: update_new)
  qed
qed (simp_all split: number.split)

lemma round_trip:
  assumes "json_value v"
  shows "\<exists>j. SerializeJSONProperty v = Some j \<and> InternalizeJSON j = v"
  using assms round_trip_all(1) by blast

lemma wire_copy_json: "v = Undefined \<or> json_value v \<Longrightarrow> wire_copy v = v"
  using round_trip [of v] by (auto simp: wire_copy_def)

lemma parse_request_frame:
  "\<exists>parsed. JSON_parse (request_frame random method data) = Some parsed \<and> parsed \<noteq> Null
     \<and> Get parsed ''method'' = Str method \<and> Get parsed ''id'' = Str random
     \<and> Get parsed ''payload'' = wire_copy data"
  by (simp add: request_frame_def JSON_parse_def Get_def wire_copy_def split: option.split)

lemma success_frame_reply:
  "matches random (success_frame (Str random) data)"
  "reply_data (success_frame (Str random) data) = wire_copy data"
  by (simp_all add: success_frame_def matches_def reply_data_def JSON_parse_def Get_def
      RequireObjectCoercible_def wire_copy_def split: option.split)

lemma error_frame_reply:
  "matches random (error_frame message (Str random))"
  "reply_data (error_frame message (Str random)) = Undefined"
  by (simp_all add: error_frame_def matches_def reply_data_def JSON_parse_def Get_def
      RequireObjectCoercible_def)

lemma send_then_reply:
  assumes "well_formed c" and "isOpen c" and "send method data random c = (n, c1)"
    and "matches random reply"
  shows "outbox c1 = outbox c @ [(socket c, request_frame random method data)]"
    and "promises (receive [reply] c1) n = Fulfilled (Value (reply_data reply))"
proof -
  have c1: "c1 = send_body (allocated c) method data random (snd (fresh c))"
    using assms(2,3) by (auto simp: send_open)
  show "outbox c1 = outbox c @ [(socket c, request_frame random method data)]"
    by (simp add: c1 send_body_fields fresh_fields)
  have c2: "c1 = (if isOpen c then c1 else onopen (socket c) c1)"
    using assms(2) by simp
  note b = send_runs_body [OF assms(1) assms(3) c2]
  from onmessage_request(2) [OF b(4), of reply] assms(4) b(5)
  show "promises (receive [reply] c1) n = Fulfilled (Value (reply_data reply))"
    by (simp add: receive_def resolve_def)
qed

lemma handleMessage_request_frame:
  assumes "method \<noteq> []"
  shows "handleMessage methodList (request_frame random method data) =
         (case lookup methodList method of
            Some (Registered callback) \<Rightarrow>
              Returned (map (success_frame (Str random)) (replies (callback (wire_copy data)))
                        @ (if throws (callback (wire_copy data))
                           then [error_frame ''Method handler error'' (Str random)] else []))
          | Some Inherited_object \<Rightarrow> Returned [error_frame ''Method handler error'' (Str random)]
          | Some (Inherited_function f) \<Rightarrow> Called_builtin f (wire_copy data)
          | None \<Rightarrow> Returned [error_frame ''Method not found'' (Str random)])"
proof -
  from parse_request_frame [of random "method" data]
  obtain parsed where p: "JSON_parse (request_frame random method data) = Some parsed"
    "parsed \<noteq> Null" "Get parsed ''method'' = Str method" "Get parsed ''id'' = Str random"
    "Get parsed ''payload'' = wire_copy data"
    by blast
  show ?thesis
    using handleMessage_named [OF p(1) p(2) p(3) assms, of methodList]
    unfolding p(4) p(5) by simp
qed

text \<open>
  The numbers that do not come back: \<open>-0\<close> comes back as \<open>+0\<close>, and \<open>NaN\<close> and the
  infinities come back as \<open>null\<close>.
\<close>

lemma wire_copy_numbers:
  "wire_copy (Num Negative_zero) = Num (Finite 0)"
  "wire_copy (Num NaN) = Null"
  "wire_copy (Num Infinity) = Null"
  "wire_copy (Num Negative_Infinity) = Null"
  "wire_copy (Num (Finite q)) = Num (Finite q)"
  by (simp_all add: wire_copy_def)

text \<open>
  Claim C3, as the code has it. For every payload \<open>p\<close> that is \<open>undefined\<close> (absent) or
  a JSON value (\<open>null\<close>, a boolean, a finite number other than \<open>-0\<close>, a string, or an
  array or object of JSON values), \<open>send('echo', p)\<close> on an open connection writes one
  request; the server whose \<open>echo\<close> handler replies with its payload answers it with one
  reply; and that reply fulfils the promise of the call with \<open>p\<close> itself.
\<close>

theorem echo_round_trip:
  assumes "well_formed c" and "isOpen c"
    and "methodList ''echo'' = Some echo"
    and "p = Undefined \<or> json_value p"
    and "send ''echo'' p random c = (n, c1)"
  shows "\<exists>request reply.
           outbox c1 = outbox c @ [(socket c, request)]
         \<and> handleMessage methodList request = Returned [reply]
         \<and> promises (receive [reply] c1) n = Fulfilled (Value p)"
proof -
  let ?request = "request_frame random ''echo'' p"
  let ?reply = "success_frame (Str random) p"
  have w: "wire_copy p = p"
    using assms(4) by (rule wire_copy_json)
  have l: "lookup methodList ''echo'' = Some (Registered echo)"
    using assms(3) by (simp add: lookup_def)
  have h: "handleMessage methodList ?request = Returned [?reply]"
    using handleMessage_request_frame [of "''echo''" methodList random p]
    by (simp add: l w echo_def)
  from send_then_reply [OF assms(1,2,5) success_frame_reply(1) [of random p]]
  have "outbox c1 = outbox c @ [(socket c, ?request)]"
    and "promises (receive [?reply] c1) n = Fulfilled (Value p)"
    by (simp_all add: success_frame_reply(2) w)
  with h show ?thesis by blast
qed

text \<open>
  C3 for the payload \<open>{foo: "bar", n: [1.5, -2, 0, null, true]}\<close> (the repository's
  test has \<open>{foo: "bar"}\<close>), and for an absent payload.
\<close>

theorem echo_round_trip_witness:
  "well_formed connected_client \<and> isOpen connected_client
   \<and> [''echo'' \<mapsto> echo] ''echo'' = Some echo
   \<and> json_value (Obj [(''foo'', Str ''bar''),
                      (''n'', Arr [Num (Finite (3 / 2)), Num (Finite (- 2)), Num (Finite 0), Null,
                                   Bool True])])
   \<and> fst (send ''echo'' (Obj [(''foo'', Str ''bar''),
                      (''n'', Arr [Num (Finite (3 / 2)), Num (Finite (- 2)), Num (Finite 0), Null,
                                   Bool True])]) ''k3x'' connected_client) = 0
   \<and> (\<exists>request reply.
          outbox (snd (send ''echo'' (Obj [(''foo'', Str ''bar''),
                      (''n'', Arr [Num (Finite (3 / 2)), Num (Finite (- 2)), Num (Finite 0), Null,
                                   Bool True])]) ''k3x'' connected_client))
            = outbox connected_client @ [(socket connected_client, request)]
        \<and> handleMessage [''echo'' \<mapsto> echo] request = Returned [reply]
        \<and> promises (receive [reply]
              (snd (send ''echo'' (Obj [(''foo'', Str ''bar''),
                      (''n'', Arr [Num (Finite (3 / 2)), Num (Finite (- 2)), Num (Finite 0), Null,
                                   Bool True])]) ''k3x'' connected_client))) 0
            = Fulfilled (Value (Obj [(''foo'', Str ''bar''),
                      (''n'', Arr [Num (Finite (3 / 2)), Num (Finite (- 2)), Num (Finite 0), Null,
                                   Bool True])])))
   \<and> fst (send ''echo'' Undefined ''k3x'' connected_client) = 0
   \<and> (\<exists>request reply.
          outbox (snd (send ''echo'' Undefined ''k3x'' connected_client))
            = outbox connected_client @ [(socket connected_client, request)]
        \<and> handleMessage [''echo'' \<mapsto> echo] request = Returned [reply]
        \<and> promises (receive [reply] (snd (send ''echo'' Undefined ''k3x'' connected_client))) 0
            = Fulfilled (Value Undefined))"
proof -
  let ?p = "Obj [(''foo'', Str ''bar''),
                 (''n'', Arr [Num (Finite (3 / 2)), Num (Finite (- 2)), Num (Finite 0), Null,
                              Bool True])]"
  let ?s = "send ''echo'' ?p ''k3x'' connected_client"
  let ?u = "send ''echo'' Undefined ''k3x'' connected_client"
  have n: "fst ?s = 0" "fst ?u = 0"
    by (simp_all add: send_open connected_client_fields)
  have s: "?s = (0, snd ?s)" "?u = (0, snd ?u)"
    using n by (metis prod.collapse)+
  have m: "[''echo'' \<mapsto> echo] ''echo'' = Some echo" by simp
  have j: "?p = Undefined \<or> json_value ?p" "Undefined = Undefined \<or> json_value Undefined"
    by simp_all
  note T = echo_round_trip [where methodList = "[''echo'' \<mapsto> echo]", OF well_formed_connected_client
             connected_client_fields(1) m]
  from T [OF j(1) s(1)] T [OF j(2) s(2)]
  show ?thesis
    using n by (simp add: well_formed_connected_client connected_client_fields(1))
qed

text \<open>
  C3 as stated fails for the payload \<open>[undefined]\<close>: \<open>JSON.stringify\<close> writes the
  element as \<open>null\<close>, and the promise is fulfilled with \<open>[null]\<close>.
\<close>

theorem echo_round_trip_counterexample:
  "outbox (snd (send ''echo'' (Arr [Undefined]) ''k3x'' connected_client))
     = [(1, JSONText (JObj [(''id'', JStr ''k3x''), (''method'', JStr ''echo''),
                            (''payload'', JArr [JNull])]))]
   \<and> handleMessage [''echo'' \<mapsto> echo]
        (JSONText (JObj [(''id'', JStr ''k3x''), (''method'', JStr ''echo''),
                         (''payload'', JArr [JNull])]))
     = Returned [JSONText (JObj [(''id'', JStr ''k3x''), (''data'', JArr [JNull])])]
   \<and> promises (receive [JSONText (JObj [(''id'', JStr ''k3x''), (''data'', JArr [JNull])])]
                 (snd (send ''echo'' (Arr [Undefined]) ''k3x'' connected_client)))
               (fst (send ''echo'' (Arr [Undefined]) ''k3x'' connected_client))
     = Fulfilled (Value (Arr [Null]))
   \<and> Arr [Null] \<noteq> Arr [Undefined]"
proof -
  let ?s = "send ''echo'' (Arr [Undefined]) ''k3x'' connected_client"
  let ?reply = "JSONText (JObj [(''id'', JStr ''k3x''), (''data'', JArr [JNull])])"
  have s: "?s = (fst ?s, snd ?s)" by simp
  have r: "?reply = success_frame (Str ''k3x'') (Arr [Null])"
    by (simp add: success_frame_def)
  have q: "request_frame ''k3x'' ''echo'' (Arr [Undefined])
             = JSONText (JObj [(''id'', JStr ''k3x''), (''method'', JStr ''echo''),
                               (''payload'', JArr [JNull])])"
    by (simp add: request_frame_def)
  have w: "wire_copy (Arr [Undefined]) = Arr [Null]" "wire_copy (Arr [Null]) = Arr [Null]"
    by (simp_all add: wire_copy_def)
  have l: "lookup [''echo'' \<mapsto> echo] ''echo'' = Some (Registered echo)"
    by (simp add: lookup_def)
  have h: "handleMessage [''echo'' \<mapsto> echo] (request_frame ''k3x'' ''echo'' (Arr [Undefined]))
             = Returned [?reply]"
    using handleMessage_request_frame [of "''echo''" "[''echo'' \<mapsto> echo]" "''k3x''" "Arr [Undefined]"]
    by (simp add: l w echo_def r)
  from send_then_reply [OF well_formed_connected_client connected_client_fields(1) s
         success_frame_reply(1) [of "''k3x''" "Arr [Null]"]]
  have "outbox (snd ?s) = outbox connected_client
                           @ [(socket connected_client, request_frame ''k3x'' ''echo'' (Arr [Undefined]))]"
    and "promises (receive [?reply] (snd ?s)) (fst ?s) = Fulfilled (Value (Arr [Null]))"
    by (simp_all add: r success_frame_reply(2) w)
  then show ?thesis
    using h by (simp add: q connected_client_fields)
qed

text \<open>
  The payload \<open>-0\<close> does not come back either: it is written as \<open>0\<close>, and the promise is
  fulfilled with \<open>+0\<close>.
\<close>

lemma echo_negative_zero:
  "outbox (snd (send ''echo'' (Num Negative_zero) ''k3x'' connected_client))
     = [(1, JSONText (JObj [(''id'', JStr ''k3x''), (''method'', JStr ''echo''),
                            (''payload'', JNum (Finite 0))]))]
   \<and> handleMessage [''echo'' \<mapsto> echo]
        (JSONText (JObj [(''id'', JStr ''k3x''), (''method'', JStr ''echo''),
                         (''payload'', JNum (Finite 0))]))
     = Returned [JSONText (JObj [(''id'', JStr ''k3x''), (''data'', JNum (Finite 0))])]
   \<and> promises (receive [JSONText (JObj [(''id'', JStr ''k3x''), (''data'', JNum (Finite 0))])]
                 (snd (send ''echo'' (Num Negative_zero) ''k3x'' connected_client)))
               (fst (send ''echo'' (Num Negative_zero) ''k3x'' connected_client))
     = Fulfilled (Value (Num (Finite 0)))
   \<and> Num (Finite 0) \<noteq> Num Negative_zero"
proof -
  let ?s = "send ''echo'' (Num Negative_zero) ''k3x'' connected_client"
  let ?reply = "JSONText (JObj [(''id'', JStr ''k3x''), (''data'', JNum (Finite 0))])"
  have s: "?s = (fst ?s, snd ?s)" by simp
  have r: "?reply = success_frame (Str ''k3x'') (Num (Finite 0))"
    by (simp add: success_frame_def)
  have q: "request_frame ''k3x'' ''echo'' (Num Negative_zero)
             = JSONText (JObj [(''id'', JStr ''k3x''), (''method'', JStr ''echo''),
                               (''payload'', JNum (Finite 0))])"
    by (simp add: request_frame_def)
  have l: "lookup [''echo'' \<mapsto> echo] ''echo'' = Some (Registered echo)"
    by (simp add: lookup_def)
  have h: "handleMessage [''echo'' \<mapsto> echo] (request_frame ''k3x'' ''echo'' (Num Negative_zero))
             = Returned [?reply]"
    using handleMessage_request_frame [of "''echo''" "[''echo'' \<mapsto> echo]" "''k3x''" "Num Negative_zero"]
    by (simp add: l wire_copy_numbers echo_def r)
  from send_then_reply [OF well_formed_connected_client connected_client_fields(1) s
         success_frame_reply(1) [of "''k3x''" "Num (Finite 0)"]]
  have "outbox (snd ?s) = outbox connected_client
                           @ [(socket connected_client, request_frame ''k3x'' ''echo'' (Num Negative_zero))]"
    and "promises (receive [?reply] (snd ?s)) (fst ?s) = Fulfilled (Value (Num (Finite 0)))"
    by (simp_all add: r success_frame_reply(2) wire_copy_numbers)
  then show ?thesis
    using h by (simp add: q connected_client_fields)
qed

text \<open>
  Claim C2, as the code has it. For a request whose method (a non-empty name that is not
  the name of a property of \<open>Object.prototype\<close>) is not registered, the server's one
  reply is the error envelope "Method not found" with the id of the request, not a
  success envelope; the listener of \<open>send\<close> compares the id only, so this reply fulfils
  the promise of the call, with \<open>undefined\<close> as data.
\<close>

theorem unknown_method_resolves_undefined:
  assumes "well_formed c" and "isOpen c"
    and "method \<noteq> []" and "methodList method = None"
    and "method \<noteq> ''__proto__''" and "method \<notin> set Object_prototype_functions"
    and "send method payload random c = (n, c1)"
  shows "\<exists>request.
           outbox c1 = outbox c @ [(socket c, request)]
         \<and> handleMessage methodList request
             = Returned [error_frame ''Method not found'' (Str random)]
         \<and> is_error_envelope (error_frame ''Method not found'' (Str random))
         \<and> promises (receive [error_frame ''Method not found'' (Str random)] c1) n
             = Fulfilled (Value Undefined)"
proof -
  let ?request = "request_frame random method payload"
  let ?reply = "error_frame ''Method not found'' (Str random)"
  have l: "lookup methodList method = None"
    using assms(4,5,6) by (simp add: lookup_def)
  have h: "handleMessage methodList ?request = Returned [?reply]"
    using handleMessage_request_frame [OF assms(3), of methodList random payload]
    by (simp add: l)
  from send_then_reply [OF assms(1,2,7) error_frame_reply(1) [of random "''Method not found''"]]
  have "outbox c1 = outbox c @ [(socket c, ?request)]"
    and "promises (receive [?reply] c1) n = Fulfilled (Value Undefined)"
    by (simp_all add: error_frame_reply(2))
  with h show ?thesis
    by (blast intro: is_error_envelope_error_frame)
qed

text \<open>
  C2 as amended, for \<open>send('notfound', {})\<close> against the server of the repository's
  tests.
\<close>

theorem unknown_method_resolves_undefined_witness:
  "well_formed connected_client \<and> isOpen connected_client
   \<and> ''notfound'' \<noteq> [] \<and> [''echo'' \<mapsto> echo] ''notfound'' = None
   \<and> ''notfound'' \<noteq> ''__proto__'' \<and> ''notfound'' \<notin> set Object_prototype_functions
   \<and> fst (send ''notfound'' (Obj []) ''k3x'' connected_client) = 0
   \<and> (\<exists>request.
          outbox (snd (send ''notfound'' (Obj []) ''k3x'' connected_client))
            = outbox connected_client @ [(socket connected_client, request)]
        \<and> handleMessage [''echo'' \<mapsto> echo] request
            = Returned [error_frame ''Method not found'' (Str ''k3x'')]
        \<and> is_error_envelope (error_frame ''Method not found'' (Str ''k3x''))
        \<and> promises (receive [error_frame ''Method not found'' (Str ''k3x'')]
              (snd (send ''notfound'' (Obj []) ''k3x'' connected_client))) 0
            = Fulfilled (Value Undefined))"
proof -
  let ?s = "send ''notfound'' (Obj []) ''k3x'' connected_client"
  have n: "fst ?s = 0"
    by (simp add: send_open connected_client_fields)
  have s: "?s = (0, snd ?s)"
    using n by (metis prod.collapse)
  have h: "''notfound'' \<noteq> []" "[''echo'' \<mapsto> echo] ''notfound'' = None"
    "''notfound'' \<noteq> ''__proto__''" "''notfound'' \<notin> set Object_prototype_functions"
    by (simp_all add: Object_prototype_functions_def)
  from unknown_method_resolves_undefined [where methodList = "[''echo'' \<mapsto> echo]",
         OF well_formed_connected_client connected_client_fields(1) h s]
  show ?thesis
    using n h by (simp add: well_formed_connected_client connected_client_fields(1))
qed

text \<open>
  C2 as stated fails for \<open>send('notfound', {})\<close>: the promise is fulfilled with
  \<open>undefined\<close> by the "Method not found" envelope, as the repository's test
  \<open>handles server method not found error\<close> expects.
\<close>

theorem unknown_method_counterexample:
  "outbox (snd (send ''notfound'' (Obj []) ''k3x'' connected_client))
     = [(1, JSONText (JObj [(''id'', JStr ''k3x''), (''method'', JStr ''notfound''),
                            (''payload'', JObj [])]))]
   \<and> handleMessage [''echo'' \<mapsto> echo]
        (JSONText (JObj [(''id'', JStr ''k3x''), (''method'', JStr ''notfound''),
                         (''payload'', JObj [])]))
     = Returned [JSONText (JObj [(''error'', JBool True), (''message'', JStr ''Method not found''),
                                 (''id'', JStr ''k3x'')])]
   \<and> promises (receive [JSONText (JObj [(''error'', JBool True),
                                         (''message'', JStr ''Method not found''),
                                         (''id'', JStr ''k3x'')])]
                 (snd (send ''notfound'' (Obj []) ''k3x'' connected_client)))
               (fst (send ''notfound'' (Obj []) ''k3x'' connected_client))
     = Fulfilled (Value Undefined)"
proof -
  let ?s = "send ''notfound'' (Obj []) ''k3x'' connected_client"
  let ?reply = "JSONText (JObj [(''error'', JBool True), (''message'', JStr ''Method not found''),
                                (''id'', JStr ''k3x'')])"
  have s: "?s = (fst ?s, snd ?s)" by simp
  have r: "?reply = error_frame ''Method not found'' (Str ''k3x'')"
    by (simp add: error_frame_def)
  have q: "request_frame ''k3x'' ''notfound'' (Obj [])
             = JSONText (JObj [(''id'', JStr ''k3x''), (''method'', JStr ''notfound''),
                               (''payload'', JObj [])])"
    by (simp add: request_frame_def)
  have l: "lookup [''echo'' \<mapsto> echo] ''notfound'' = None"
    by (simp add: lookup_def Object_prototype_functions_def)
  have h: "handleMessage [''echo'' \<mapsto> echo] (request_frame ''k3x'' ''notfound'' (Obj []))
             = Returned [?reply]"
    using handleMessage_request_frame [of "''notfound''" "[''echo'' \<mapsto> echo]" "''k3x''" "Obj []"]
    by (simp add: l r)
  from send_then_reply [OF well_formed_connected_client connected_client_fields(1) s
         error_frame_reply(1) [of "''k3x''" "''Method not found''"]]
  have "outbox (snd ?s) = outbox connected_client
                           @ [(socket connected_client, request_frame ''k3x'' ''notfound'' (Obj []))]"
    and "promises (receive [?reply] (snd ?s)) (fst ?s) = Fulfilled (Value Undefined)"
    by (simp_all add: r error_frame_reply(2))
  then show ?thesis
    using h by (simp add: q connected_client_fields)
qed

section \<open>Reconnection and \<open>close\<close>\<close>

text \<open>
  Claim C6 fails on the code when a reconnect timer is pending at the call of \<open>close\<close>.
  A client with \<open>reconnect\<close> enabled connects; its socket closes, which schedules
  \<open>connect\<close> in 1000 ms; the caller calls \<open>close\<close>, which clears \<open>_shouldReconnect\<close>
  and leaves the timer; the timer fires, and \<open>connect\<close> sets \<open>_shouldReconnect\<close> back to
  \<open>reconnect\<close> and creates the second socket.
\<close>

theorem close_with_pending_timer_reconnects:
  "socket (run [Socket_open 1, Socket_close 1] (new_WSClient True)) = 1
   \<and> timers (run [Socket_open 1, Socket_close 1] (new_WSClient True)) = 1
   \<and> shouldReconnect (run [Socket_open 1, Socket_close 1, Call_close] (new_WSClient True)) = False
   \<and> socket (run [Socket_open 1, Socket_close 1, Call_close, Timer_fires] (new_WSClient True)) = 2
   \<and> shouldReconnect (run [Socket_open 1, Socket_close 1, Call_close, Timer_fires]
                         (new_WSClient True)) = True"
  by (simp add: run_def new_WSClient_def connect_def open'_def onopen_def onclose_def
      schedule_reconnect_def close_def ontimer_def Let_def)

text \<open>
  With no timer pending when \<open>close\<close> is called, no later event and no later call
  creates a socket.
\<close>

lemma connection_deliver: "connection (deliver event l c) = connection c"
  by (cases l)
     (simp_all add: connection_def deliver_User deliver_Request deliver_Stream logged_def called_def
        console_error_def removeListener_def settle_def)

lemma connection_fold_deliver: "connection (fold (deliver event) ls c) = connection c"
  by (induction ls arbitrary: c) (simp_all add: connection_deliver)

lemma connection_onmessage: "connection (fst (onmessage event c)) = connection c"
  by (simp add: onmessage_fold connection_fold_deliver)

lemma connection_resumed: "connection (resumed w c) = connection c"
  by (cases w)
     (simp_all add: connection_def send_body_def stream_body_def send'_def addListener_def
        settle_def Let_def)

lemma connection_fold_resumed: "connection (fold resumed ws c) = connection c"
  by (induction ws arbitrary: c) (simp_all add: connection_resumed)

lemma connection_failed: "connection (failed e w c) = connection c"
  by (cases w) (simp_all add: connection_def settle_def)

lemma connection_fold_failed: "connection (fold (failed e) ws c) = connection c"
  by (induction ws arbitrary: c) (simp_all add: connection_failed)

lemma connection_errorHandler: "connection (errorHandler n c) = connection c"
  by (simp add: connection_def errorHandler_def removeListener_def settle_def)

lemma connection_fold_errorHandler: "connection (fold errorHandler ns c) = connection c"
  by (induction ns arbitrary: c) (simp_all add: connection_errorHandler)

lemma connection_onopen: "connection (onopen k c) = connection c"
  by (simp add: onopen_def Let_def connection_fold_resumed) (simp add: connection_def)

lemma connection_open': "connection (open' w c) = connection c"
  by (simp add: open'_def connection_resumed) (simp add: connection_def)

lemma connection_send: "connection (snd (send m d r c)) = connection c"
  by (simp add: send_def fresh_def Let_def connection_open') (simp add: connection_def)

lemma connection_stream: "connection (snd (stream m d cb r c)) = connection c"
  by (simp add: stream_def fresh_def Let_def connection_open') (simp add: connection_def)

lemma connection_call_open: "connection (snd (call_open c)) = connection c"
  by (simp add: call_open_def fresh_def Let_def connection_open') (simp add: connection_def)

lemma step_closed:
  assumes "\<not> shouldReconnect c" and "timers c = 0"
  shows "\<not> shouldReconnect (step e c) \<and> timers (step e c) = 0 \<and> socket (step e c) = socket c"
proof (cases e)
  case (Socket_open k)
  then show ?thesis
    using assms connection_onopen [of k c] by (simp add: connection_def)
next
  case (Socket_close k)
  then show ?thesis
    using assms by (simp add: onclose_def schedule_reconnect_def)
next
  case (Socket_error k)
  let ?c1 = "if k = socket c
             then schedule_reconnect (console_error ''WebSocket error:'' c\<lparr>isOpen := False\<rparr>)
             else c"
  let ?c2 = "fold errorHandler (map snd (filter (\<lambda>h. fst h = k) (errorHandlers ?c1))) ?c1"
  let ?c3 = "?c2\<lparr>openWaiters := filter (\<lambda>w. fst w \<noteq> k) (openWaiters ?c2)\<rparr>"
  have 1: "connection ?c1 = connection c"
    using assms by (simp add: connection_def schedule_reconnect_def console_error_def)
  have 2: "connection ?c2 = connection ?c1"
    by (rule connection_fold_errorHandler)
  have 3: "connection ?c3 = connection ?c2"
    by (simp add: connection_def)
  have "connection (onerror k c) = connection ?c3"
    by (simp add: onerror_def Let_def connection_fold_failed)
  then show ?thesis
    using assms 1 2 3 Socket_error by (simp add: connection_def)
next
  case (Socket_message k message)
  then show ?thesis
    using assms connection_onmessage [of message c] by (simp add: connection_def)
next
  case Timer_fires
  then show ?thesis using assms by (simp add: ontimer_def)
next
  case Call_close
  then show ?thesis using assms by (simp add: close_def)
next
  case (Call_send m d r)
  then show ?thesis
    using assms connection_send [of m d r c] by (simp add: connection_def)
next
  case (Call_stream m d cb r)
  then show ?thesis
    using assms connection_stream [of m d cb r c] by (simp add: connection_def)
next
  case (Call_stop n)
  then show ?thesis using assms by (simp add: stop_def removeListener_def)
next
  case Call_open
  then show ?thesis
    using assms connection_call_open [of c] by (simp add: connection_def)
next
  case (Call_addListener f)
  then show ?thesis using assms by (simp add: call_addListener_def addListener_def Let_def)
next
  case (Call_removeListener n)
  then show ?thesis using assms by (simp add: removeListener_def)
next
  case Call_onConnect
  then show ?thesis using assms by (simp add: onConnect_def)
qed

lemma run_closed:
  assumes "\<not> shouldReconnect c" and "timers c = 0"
  shows "socket (run events c) = socket c"
  using assms
proof (induction events arbitrary: c)
  case Nil
  show ?case by (simp add: run_def)
next
  case (Cons e events)
  from step_closed [OF Cons.prems, of e]
  have s: "\<not> shouldReconnect (step e c)" "timers (step e c) = 0" "socket (step e c) = socket c"
    by simp_all
  from Cons.IH [OF s(1,2)] s(3) show ?case by (simp add: run_def)
qed

lemma close_without_pending_timer:
  assumes "timers c = 0"
  shows "socket (run events (close c)) = socket c"
  using run_closed [of "close c" events] assms by (simp add: close_def)

section \<open>Properties of Pledge\<close>










lemma winner_pending:
  "state (cells rt r) = Pending \<Longrightarrow>
   winner r rt = (case List.map_filter (token_of r) (jobs rt) of [] \<Rightarrow> Pending | w # ws \<Rightarrow> w)"
  by (simp add: winner_def)




































lemma milliseconds_in_range:
  "1 \<le> q \<Longrightarrow> q \<le> 2147483647 \<Longrightarrow> milliseconds (Finite q) = nat \<lfloor>q\<rfloor>"
  "milliseconds (Finite (of_nat n)) = (if 1 \<le> n \<and> n \<le> 2147483647 then n else 1)"
  by simp_all



end
